theory Spec2Isabelle
  imports Main "HOL-Library.Multiset"
begin

text \<open>
  The data access layer of the coffee shop point of sale (\<open>src/services/db.ts\<close>) and
  the order tracker of the customer kiosk (\<open>src/components/CustomerKiosk.tsx\<close>), as
  functions on an explicit state, with the properties of the specification that concern
  them.
\<close>

section \<open>Data model (src/types.ts)\<close>

text \<open>
  A TypeScript \<open>number\<close> that holds an identifier, a price, a quantity or a millisecond
  timestamp is an \<open>int\<close>; an optional field is an \<open>option\<close>. Field names that several
  interfaces share (\<open>id\<close>, \<open>name\<close>, \<open>timestamp\<close>, \<open>type\<close>) carry the interface as a
  suffix, because a record field is a constant of the theory.
\<close>

record MenuItem =
  id_item :: int
  name_item :: string
  price :: int
  category :: string
  image :: "string option"
  description :: "string option"

record CartItem = MenuItem +
  quantity :: int
  instructions :: "string option"
  cartId :: "string option"

datatype OrderStatus = pending | preparing | ready | completed | cancelled

record Customer =
  id_customer :: string
  name_customer :: string
  phone :: string
  address :: string
  password :: "string option"

text \<open>\<open>Omit<Customer, 'id'>\<close>, the argument of \<open>registerCustomer\<close>.\<close>

record CustomerData =
  name_data :: string
  phone_data :: string
  address_data :: string
  password_data :: "string option"

record Order =
  id_order :: int
  timestamp :: int
  tableNumber :: string
  customerName :: string
  customerId :: "string option"
  items :: "CartItem list"
  total :: int
  status :: OrderStatus

datatype NotificationType = info | success | warning

record Notification =
  id_noti :: string
  title :: string
  message :: string
  timestamp_noti :: int
  read :: bool
  type_noti :: NotificationType


section \<open>Events (src/services/db.ts)\<close>

datatype DBEventType = NEW_ORDER | STATUS_UPDATE | MENU_UPDATE | GENERIC_UPDATE

text \<open>
  The payloads that the service puts into \<open>data\<close>: the whole order for \<open>NEW_ORDER\<close>, the
  object \<open>{ orderId, status }\<close> for \<open>STATUS_UPDATE\<close>. An absent \<open>data\<close> is \<open>None\<close>.
\<close>

datatype EventData = OrderData Order | StatusData int OrderStatus

record DBEvent =
  type_event :: DBEventType
  data :: "EventData option"


section \<open>Numbers as text\<close>

text \<open>
  \<open>Number.prototype.toString\<close> on an integer and \<open>String.prototype.slice\<close> with a negative
  start, as used for customer ids and for the short order number of a notification.
\<close>

definition digit :: "nat \<Rightarrow> char" where
  "digit d = ''0123456789'' ! d"

fun string_of_nat :: "nat \<Rightarrow> string" where
  "string_of_nat n =
     (if n < 10 then [digit n] else string_of_nat (n div 10) @ [digit (n mod 10)])"

declare string_of_nat.simps [simp del]

definition toString :: "int \<Rightarrow> string" where
  "toString i = (if i < 0 then CHR ''-'' # string_of_nat (nat (- i)) else string_of_nat (nat i))"

definition slice_last :: "nat \<Rightarrow> string \<Rightarrow> string" where
  "slice_last k s = drop (length s - k) s"


section \<open>The service state\<close>

text \<open>
  \<open>localStorage\<close> holds three keys. A key that was never written reads as \<open>null\<close>, here
  \<open>None\<close>; a written key holds the JSON text of an array, here the array itself
  (\<open>JSON.parse (JSON.stringify v)\<close> gives \<open>v\<close> back on these records).
\<close>

record localStorage =
  hm_pos_menu :: "MenuItem list option"
  hm_pos_orders :: "Order list option"
  hm_pos_customers :: "Customer list option"

text \<open>
  A listener is a function value, compared by reference in \<open>subscribe\<close>; it is modelled by
  its identity. What a listener does when called is outside the service, except for
  one thing that the service can observe: the call returns or it throws. The field
  \<open>throws\<close> tells for a listener and an event whether the call throws. The model keeps
  the log \<open>calls\<close> of every call the service makes, in order, and the log \<open>channel\<close> of
  every event handed to \<open>BroadcastChannel.postMessage\<close>. A listener that subscribes or
  unsubscribes while it is being called is not modelled.
\<close>

text \<open>
  Every operation of the service first waits for \<open>simulateNetwork\<close> and then reads,
  changes and writes \<open>localStorage\<close> and publishes without giving up control in between
  (after the read in \<open>getOrders\<close> or \<open>getMenu\<close> only the continuation of the caller
  runs). An operation is therefore one function from the state before to the state
  after, within one browser context; the delay itself is not modelled. A value read
  from the clock, \<open>Date.now()\<close>, is an argument of the operation that reads it.

  The promise of an operation is fulfilled with a value or rejected with an error. An
  operation gives the state it leaves behind together with that outcome, \<open>Inr\<close> the
  value and \<open>Inl\<close> the error. An error is the one that \<open>registerCustomer\<close> throws or
  the exception of a listener, which no operation catches.
\<close>

type_synonym listener = nat

datatype DBError = DuplicatePhone | ListenerError listener

record DBService =
  storage :: localStorage
  listeners :: "listener list"
  channel :: "DBEvent list"
  calls :: "(listener \<times> DBEvent) list"
  throws :: "listener \<Rightarrow> DBEvent \<Rightarrow> bool"

definition INITIAL_MENU :: "MenuItem list" where
  "INITIAL_MENU =
    [\<lparr>id_item = 1, name_item = ''Signature Espresso'', price = 3500, category = ''Coffee'',
      image = Some ''https://images.unsplash.com/photo-1510707577719-ae7c14805e3a?auto=format&fit=crop&w=400&q=80'',
      description = Some ''Rich, full-bodied espresso shot.''\<rparr>,
     \<lparr>id_item = 2, name_item = ''Oat Milk Latte'', price = 5500, category = ''Coffee'',
      image = Some ''https://images.unsplash.com/photo-1534687553325-699a223e85e9?auto=format&fit=crop&w=400&q=80'',
      description = Some ''Smooth espresso with steamed oat milk.''\<rparr>,
     \<lparr>id_item = 3, name_item = ''Blueberry Muffin'', price = 4000, category = ''Pastry'',
      image = Some ''https://images.unsplash.com/photo-1607958996333-41aef7caefaa?auto=format&fit=crop&w=400&q=80'',
      description = Some ''Freshly baked with real blueberries.''\<rparr>]"

text \<open>
  The state of a freshly constructed service in a browser profile that never ran it,
  among listener functions that never throw.
\<close>

definition new_DBService :: DBService where
  "new_DBService =
     \<lparr>storage = \<lparr>hm_pos_menu = None, hm_pos_orders = None, hm_pos_customers = None\<rparr>,
      listeners = [], channel = [], calls = [], throws = (\<lambda>l event. False)\<rparr>"


section \<open>Event bus\<close>

text \<open>
  \<open>subscribe\<close> pushes the listener and returns a closure; calling the closure is
  \<open>unsubscribe\<close> on the same listener: it keeps the entries that are not that function.
\<close>

definition subscribe :: "listener \<Rightarrow> DBService \<Rightarrow> DBService" where
  "subscribe l s = s\<lparr>listeners := listeners s @ [l]\<rparr>"

definition unsubscribe :: "listener \<Rightarrow> DBService \<Rightarrow> DBService" where
  "unsubscribe l s = s\<lparr>listeners := filter (\<lambda>l'. l' \<noteq> l) (listeners s)\<rparr>"

text \<open>
  \<open>this.listeners.forEach(l => l(event))\<close> calls the listeners in the order of the array.
  Nothing catches an exception, so the first call that throws ends the loop: the
  listeners after it are not called. \<open>forEach_call\<close> gives the listeners that were
  called and the listener that threw, if one did.
\<close>

fun forEach_call :: "(listener \<Rightarrow> bool) \<Rightarrow> listener list \<Rightarrow> listener list \<times> listener option" where
  "forEach_call th [] = ([], None)"
| "forEach_call th (l # ls) =
     (if th l then ([l], Some l)
      else (case forEach_call th ls of (called, thrown) \<Rightarrow> (l # called, thrown)))"

definition notifyListeners :: "DBEvent \<Rightarrow> DBService \<Rightarrow> DBService \<times> (DBError + unit)" where
  "notifyListeners event s =
     (case forEach_call (\<lambda>l. throws s l event) (listeners s) of
        (called, thrown) \<Rightarrow>
          (s\<lparr>calls := calls s @ map (\<lambda>l. (l, event)) called\<rparr>,
           case thrown of None \<Rightarrow> Inr () | Some l \<Rightarrow> Inl (ListenerError l)))"

definition broadcastUpdate :: "DBEvent \<Rightarrow> DBService \<Rightarrow> DBService \<times> (DBError + unit)" where
  "broadcastUpdate event s = notifyListeners event (s\<lparr>channel := channel s @ [event]\<rparr>)"

text \<open>
  The statements that follow a \<open>broadcastUpdate\<close> in an operation, here the \<open>return\<close> of
  a value, run only when the broadcast did not throw.
\<close>

definition then_return :: "DBService \<times> (DBError + unit) \<Rightarrow> 'a \<Rightarrow> DBService \<times> (DBError + 'a)" where
  "then_return r v = (fst r, case snd r of Inl e \<Rightarrow> Inl e | Inr u \<Rightarrow> Inr v)"

text \<open>
  \<open>channel.onmessage\<close>: a message from another tab. \<open>None\<close> is a message whose data is
  missing or has no \<open>type\<close>.
\<close>

definition onmessage :: "DBEvent option \<Rightarrow> DBService \<Rightarrow> DBService \<times> (DBError + unit)" where
  "onmessage messageData s =
     notifyListeners
       (case messageData of Some event \<Rightarrow> event
        | None \<Rightarrow> \<lparr>type_event = GENERIC_UPDATE, data = None\<rparr>) s"


section \<open>Storage access\<close>

definition init :: "DBService \<Rightarrow> DBService" where
  "init s =
     (let st = storage s;
          st1 = (if hm_pos_menu st = None then st\<lparr>hm_pos_menu := Some INITIAL_MENU\<rparr> else st);
          st2 = (if hm_pos_orders st1 = None then st1\<lparr>hm_pos_orders := Some []\<rparr> else st1);
          st3 = (if hm_pos_customers st2 = None then st2\<lparr>hm_pos_customers := Some []\<rparr> else st2)
      in s\<lparr>storage := st3\<rparr>)"

text \<open>\<open>data ? JSON.parse(data) : []\<close>\<close>

definition parse_or_empty :: "'a list option \<Rightarrow> 'a list" where
  "parse_or_empty d = (case d of None \<Rightarrow> [] | Some xs \<Rightarrow> xs)"

definition write_menu :: "MenuItem list \<Rightarrow> DBService \<Rightarrow> DBService" where
  "write_menu menu s = s\<lparr>storage := (storage s)\<lparr>hm_pos_menu := Some menu\<rparr>\<rparr>"

definition write_orders :: "Order list \<Rightarrow> DBService \<Rightarrow> DBService" where
  "write_orders orders s = s\<lparr>storage := (storage s)\<lparr>hm_pos_orders := Some orders\<rparr>\<rparr>"

definition write_customers :: "Customer list \<Rightarrow> DBService \<Rightarrow> DBService" where
  "write_customers customers s = s\<lparr>storage := (storage s)\<lparr>hm_pos_customers := Some customers\<rparr>\<rparr>"


section \<open>Customer operations\<close>

definition getCustomers :: "DBService \<Rightarrow> Customer list" where
  "getCustomers s = parse_or_empty (hm_pos_customers (storage s))"

text \<open>
  \<open>now\<close> is the value of \<open>Date.now()\<close> when the customer record is built. The result is
  the state after the call and either the thrown error or the returned customer.
\<close>

definition registerCustomer ::
  "CustomerData \<Rightarrow> int \<Rightarrow> DBService \<Rightarrow> DBService \<times> (DBError + Customer)" where
  "registerCustomer customerData now s =
     (let customers = parse_or_empty (hm_pos_customers (storage s)) in
      case find (\<lambda>c. phone c = phone_data customerData) customers of
        Some c \<Rightarrow> (s, Inl DuplicatePhone)
      | None \<Rightarrow>
         (let newCustomer =
                \<lparr>id_customer = ''CUST-'' @ toString now,
                 name_customer = name_data customerData,
                 phone = phone_data customerData,
                 address = address_data customerData,
                 password = password_data customerData\<rparr>
          in (write_customers (customers @ [newCustomer]) s, Inr newCustomer)))"

definition loginCustomer :: "string \<Rightarrow> string \<Rightarrow> DBService \<Rightarrow> Customer option" where
  "loginCustomer ph pw s =
     find (\<lambda>c. phone c = ph \<and> password c = Some pw)
       (parse_or_empty (hm_pos_customers (storage s)))"


section \<open>Menu operations\<close>

definition getMenu :: "DBService \<Rightarrow> MenuItem list" where
  "getMenu s = parse_or_empty (hm_pos_menu (storage s))"

text \<open>\<open>Array.prototype.findIndex\<close>, with \<open>None\<close> for \<open>-1\<close>.\<close>

fun findIndex :: "('a \<Rightarrow> bool) \<Rightarrow> 'a list \<Rightarrow> nat option" where
  "findIndex P [] = None"
| "findIndex P (x # xs) =
     (if P x then Some 0 else (case findIndex P xs of None \<Rightarrow> None | Some i \<Rightarrow> Some (Suc i)))"

text \<open>
  \<open>Omit<MenuItem, 'id'>\<close> is passed as a menu item whose \<open>id\<close> is ignored: the spread
  \<open>{ ...item, id: newId }\<close> overwrites it. The value of the operation is the id.
\<close>

definition addMenuItem :: "MenuItem \<Rightarrow> int \<Rightarrow> DBService \<Rightarrow> DBService \<times> (DBError + int)" where
  "addMenuItem item now s =
     (let menu = getMenu s;
          newId = now;
          newItem = item\<lparr>id_item := newId\<rparr>
      in then_return
           (broadcastUpdate \<lparr>type_event = MENU_UPDATE, data = None\<rparr>
              (write_menu (menu @ [newItem]) s))
           newId)"

definition updateMenuItem :: "MenuItem \<Rightarrow> DBService \<Rightarrow> DBService \<times> (DBError + unit)" where
  "updateMenuItem item s =
     (let menu = getMenu s in
      case findIndex (\<lambda>i. id_item i = id_item item) menu of
        Some index \<Rightarrow>
          broadcastUpdate \<lparr>type_event = MENU_UPDATE, data = None\<rparr>
            (write_menu (menu[index := item]) s)
      | None \<Rightarrow> (s, Inr ()))"

definition deleteMenuItem :: "int \<Rightarrow> DBService \<Rightarrow> DBService \<times> (DBError + unit)" where
  "deleteMenuItem i s =
     broadcastUpdate \<lparr>type_event = MENU_UPDATE, data = None\<rparr>
       (write_menu (filter (\<lambda>m. id_item m \<noteq> i) (getMenu s)) s)"


section \<open>Order operations\<close>

text \<open>
  \<open>Array.prototype.sort\<close> with a comparator is stable (ECMAScript 2019): an element \<open>a\<close>
  comes before \<open>b\<close> when \<open>cmp a b < 0\<close>, and elements that compare equal keep their
  order. For a comparator that is a total preorder the result is determined; it is
  computed here by insertion from the right.
\<close>

fun insert_by :: "('a \<Rightarrow> 'a \<Rightarrow> int) \<Rightarrow> 'a \<Rightarrow> 'a list \<Rightarrow> 'a list" where
  "insert_by cmp x [] = [x]"
| "insert_by cmp x (y # ys) = (if cmp x y \<le> 0 then x # y # ys else y # insert_by cmp x ys)"

fun sort_by :: "('a \<Rightarrow> 'a \<Rightarrow> int) \<Rightarrow> 'a list \<Rightarrow> 'a list" where
  "sort_by cmp [] = []"
| "sort_by cmp (x # xs) = insert_by cmp x (sort_by cmp xs)"

definition getOrders :: "DBService \<Rightarrow> Order list" where
  "getOrders s =
     sort_by (\<lambda>a b. timestamp b - timestamp a) (parse_or_empty (hm_pos_orders (storage s)))"

definition saveOrder :: "Order \<Rightarrow> DBService \<Rightarrow> DBService \<times> (DBError + unit)" where
  "saveOrder order s =
     broadcastUpdate \<lparr>type_event = NEW_ORDER, data = Some (OrderData order)\<rparr>
       (write_orders (getOrders s @ [order]) s)"

text \<open>
  \<open>orders.find\<close> returns the array element itself, so the assignment to its \<open>status\<close>
  changes the array at the position of the first match.
\<close>

fun assign_first :: "('a \<Rightarrow> bool) \<Rightarrow> ('a \<Rightarrow> 'a) \<Rightarrow> 'a list \<Rightarrow> 'a list" where
  "assign_first P f [] = []"
| "assign_first P f (x # xs) = (if P x then f x # xs else x # assign_first P f xs)"

definition updateOrderStatus ::
  "int \<Rightarrow> OrderStatus \<Rightarrow> DBService \<Rightarrow> DBService \<times> (DBError + unit)" where
  "updateOrderStatus orderId st s =
     (let orders = getOrders s in
      case find (\<lambda>x. id_order x = orderId) orders of
        Some order \<Rightarrow>
          broadcastUpdate \<lparr>type_event = STATUS_UPDATE, data = Some (StatusData orderId st)\<rparr>
            (write_orders (assign_first (\<lambda>x. id_order x = orderId) (\<lambda>x. x\<lparr>status := st\<rparr>) orders) s)
      | None \<Rightarrow> (s, Inr ()))"

definition deleteOrder :: "int \<Rightarrow> DBService \<Rightarrow> DBService \<times> (DBError + unit)" where
  "deleteOrder i s =
     broadcastUpdate \<lparr>type_event = GENERIC_UPDATE, data = None\<rparr>
       (write_orders (filter (\<lambda>x. id_order x \<noteq> i) (getOrders s)) s)"


subsection \<open>Dates\<close>

text \<open>
  A \<open>Date\<close> object holds a time value: a number of milliseconds since the epoch, or
  \<open>NaN\<close> for an invalid date, such as the one built from an empty string. \<open>getTime\<close>
  returns the time value, with \<open>None\<close> for \<open>NaN\<close>.

  Local time is given by the time zone of the host. As in the language standard, the
  zone is the function \<open>LocalTZA\<close>: \<open>tz t True\<close> is the offset of local time from UTC,
  in milliseconds, at the time value \<open>t\<close>, and \<open>tz y False\<close> is the offset that turns the
  local time \<open>y\<close> into a time value (for a local time that the clock skips or shows
  twice the standard takes the offset from before the change). \<open>setHours\<close> goes to
  local time, keeps the day number, replaces the time within the day, goes back to a
  time value and clips it to the range of time values.
\<close>

datatype Date = Date int | Invalid_Date

type_synonym LocalTZA = "int \<Rightarrow> bool \<Rightarrow> int"

definition getTime :: "Date \<Rightarrow> int option" where
  "getTime d = (case d of Date t \<Rightarrow> Some t | Invalid_Date \<Rightarrow> None)"

definition msPerDay :: int where
  "msPerDay = 86400000"

definition LocalTime :: "LocalTZA \<Rightarrow> int \<Rightarrow> int" where
  "LocalTime tz t = t + tz t True"

definition UTC :: "LocalTZA \<Rightarrow> int \<Rightarrow> int" where
  "UTC tz y = y - tz y False"

definition Day :: "int \<Rightarrow> int" where
  "Day t = t div msPerDay"

definition MakeTime :: "int \<Rightarrow> int \<Rightarrow> int \<Rightarrow> int \<Rightarrow> int" where
  "MakeTime h m sec ms = h * 3600000 + m * 60000 + sec * 1000 + ms"

definition MakeDate :: "int \<Rightarrow> int \<Rightarrow> int" where
  "MakeDate day time = day * msPerDay + time"

definition TimeClip :: "int \<Rightarrow> Date" where
  "TimeClip t = (if \<bar>t\<bar> > 8640000000000000 then Invalid_Date else Date t)"

definition setHours :: "LocalTZA \<Rightarrow> Date \<Rightarrow> int \<Rightarrow> int \<Rightarrow> int \<Rightarrow> int \<Rightarrow> Date" where
  "setHours tz d h m sec ms =
     (case d of
        Invalid_Date \<Rightarrow> Invalid_Date
      | Date t \<Rightarrow>
          (let t' = LocalTime tz t;
               date = MakeDate (Day t') (MakeTime h m sec ms)
           in TimeClip (UTC tz date)))"

text \<open>Comparison of a number with a number that may be \<open>NaN\<close>: false on \<open>NaN\<close>.\<close>

definition num_ge :: "int \<Rightarrow> int option \<Rightarrow> bool" where
  "num_ge a b = (case b of None \<Rightarrow> False | Some b' \<Rightarrow> a \<ge> b')"

definition num_le :: "int \<Rightarrow> int option \<Rightarrow> bool" where
  "num_le a b = (case b of None \<Rightarrow> False | Some b' \<Rightarrow> a \<le> b')"

definition num_lt :: "int \<Rightarrow> int option \<Rightarrow> bool" where
  "num_lt a b = (case b of None \<Rightarrow> False | Some b' \<Rightarrow> a < b')"

definition num_gt :: "int \<Rightarrow> int option \<Rightarrow> bool" where
  "num_gt a b = (case b of None \<Rightarrow> False | Some b' \<Rightarrow> a > b')"

definition getOrdersByDate :: "LocalTZA \<Rightarrow> Date \<Rightarrow> DBService \<Rightarrow> Order list" where
  "getOrdersByDate tz date s =
     (let orders = getOrders s;
          start = setHours tz date 0 0 0 0;
          end = setHours tz date 23 59 59 999
      in filter (\<lambda>order. num_ge (timestamp order) (getTime start)
                        \<and> num_le (timestamp order) (getTime end)) orders)"

text \<open>The value of the operation is the count.\<close>

definition clearOrdersByDate ::
  "LocalTZA \<Rightarrow> Date \<Rightarrow> DBService \<Rightarrow> DBService \<times> (DBError + int)" where
  "clearOrdersByDate tz date s =
     (let orders = getOrders s;
          initialCount = int (length orders);
          start = setHours tz date 0 0 0 0;
          end = setHours tz date 23 59 59 999;
          orders' = filter (\<lambda>order. num_lt (timestamp order) (getTime start)
                                  \<or> num_gt (timestamp order) (getTime end)) orders
      in then_return
           (broadcastUpdate \<lparr>type_event = GENERIC_UPDATE, data = None\<rparr> (write_orders orders' s))
           (initialCount - int (length orders')))"


section \<open>Kiosk order tracker (src/components/CustomerKiosk.tsx)\<close>

text \<open>
  The part of the kiosk component's state that \<open>checkStatus\<close> reads and writes, with the
  log \<open>played\<close> of the sounds started by \<open>playNotificationSound\<close>.
\<close>

datatype Sound = sound_preparing | sound_ready

record Kiosk =
  activeOrderId :: "int option"
  activeOrder :: "Order option"
  notifications :: "Notification list"
  isTrackingMinimized :: bool
  played :: "Sound list"

definition playNotificationSound :: "Sound \<Rightarrow> Kiosk \<Rightarrow> Kiosk" where
  "playNotificationSound ty k = k\<lparr>played := played k @ [ty]\<rparr>"

text \<open>\<open>t1\<close> and \<open>t2\<close> are the two readings of \<open>Date.now()\<close>, for the id and the timestamp.\<close>

definition addNotification ::
  "string \<Rightarrow> string \<Rightarrow> NotificationType \<Rightarrow> int \<Rightarrow> int \<Rightarrow> Kiosk \<Rightarrow> Kiosk" where
  "addNotification ttl msg ty t1 t2 k =
     (let newNoti = \<lparr>id_noti = toString t1, title = ttl, message = msg,
                     timestamp_noti = t2, read = False, type_noti = ty\<rparr>
      in k\<lparr>notifications := newNoti # notifications k\<rparr>)"

text \<open>
  \<open>checkStatus\<close> runs inside the effect, which returns early when there is no active
  order id; \<open>activeOrder\<close> is the snapshot the effect was created with.
\<close>

definition checkStatus :: "DBService \<Rightarrow> int \<Rightarrow> int \<Rightarrow> Kiosk \<Rightarrow> Kiosk" where
  "checkStatus s t1 t2 k =
     (let orders = getOrders s in
      case find (\<lambda>x. Some (id_order x) = activeOrderId k) orders of
        None \<Rightarrow> k
      | Some freshOrder \<Rightarrow>
          (let k1 =
             (case activeOrder k of
                None \<Rightarrow> k
              | Some prev \<Rightarrow>
                  (let ka = (if status prev = pending \<and> status freshOrder = preparing
                             then addNotification ''Order Update'' ''Your order is being prepared!'' info
                                    t1 t2 (playNotificationSound sound_preparing k)
                             else k);
                       kb = (if status prev \<noteq> ready \<and> status freshOrder = ready
                             then (addNotification ''Order Ready!''
                                     (''Order #'' @ slice_last 4 (toString (id_order freshOrder))
                                        @ '' is ready for pickup.'')
                                     success t1 t2 (playNotificationSound sound_ready ka))
                                  \<lparr>isTrackingMinimized := False\<rparr>
                             else ka)
                   in kb))
           in k1\<lparr>activeOrder := Some freshOrder\<rparr>))"


section \<open>Observations used by the properties\<close>

text \<open>The orders array as it is stored, before \<open>getOrders\<close> sorts its copy.\<close>

definition stored_orders :: "DBService \<Rightarrow> Order list" where
  "stored_orders s = parse_or_empty (hm_pos_orders (storage s))"

text \<open>The listener calls made between a state and a later state.\<close>

definition new_calls :: "DBService \<Rightarrow> DBService \<Rightarrow> (listener \<times> DBEvent) list" where
  "new_calls s s' = drop (length (calls s)) (calls s')"

text \<open>The events handed to the broadcast channel between a state and a later state.\<close>

definition new_posts :: "DBService \<Rightarrow> DBService \<Rightarrow> DBEvent list" where
  "new_posts s s' = drop (length (channel s)) (channel s')"

text \<open>
  The listeners that a publish of an event reaches: the registered listeners, in the
  order of registration, up to and including the first one that throws.
\<close>

definition delivered_to :: "DBEvent \<Rightarrow> DBService \<Rightarrow> listener list" where
  "delivered_to e s =
     takeWhile (\<lambda>l. \<not> throws s l e) (listeners s)
     @ take 1 (dropWhile (\<lambda>l. \<not> throws s l e) (listeners s))"


text \<open>
  A call of one of the three menu mutators, to speak about sequences of calls. A
  sequence goes on from the state that a call leaves, whatever its outcome was.
\<close>

datatype MenuCall = AddMenuItem MenuItem int | UpdateMenuItem MenuItem | DeleteMenuItem int

fun menu_call :: "MenuCall \<Rightarrow> DBService \<Rightarrow> DBService" where
  "menu_call (AddMenuItem item now) s = fst (addMenuItem item now s)"
| "menu_call (UpdateMenuItem item) s = fst (updateMenuItem item s)"
| "menu_call (DeleteMenuItem i) s = fst (deleteMenuItem i s)"


text \<open>A sequence of \<open>addMenuItem\<close> calls, each with its item and its clock reading.\<close>

fun addMenuItems :: "(MenuItem \<times> int) list \<Rightarrow> DBService \<Rightarrow> DBService" where
  "addMenuItems [] s = s"
| "addMenuItems ((item, now) # cs) s = addMenuItems cs (fst (addMenuItem item now s))"

text \<open>
  The day window of the specification, in the local time of a zone: the number of the
  local day that holds a time value, and the time values of the first millisecond of
  that local day (00:00:00.000), of its last millisecond (23:59:59.999) and of the
  first millisecond of the next local day.
\<close>

definition localDay :: "LocalTZA \<Rightarrow> int \<Rightarrow> int" where
  "localDay tz t = (t + tz t True) div 86400000"

definition fromLocal :: "LocalTZA \<Rightarrow> int \<Rightarrow> int" where
  "fromLocal tz y = y - tz y False"

definition startOfDay :: "LocalTZA \<Rightarrow> int \<Rightarrow> int" where
  "startOfDay tz t = fromLocal tz (localDay tz t * 86400000)"

definition endOfDay :: "LocalTZA \<Rightarrow> int \<Rightarrow> int" where
  "endOfDay tz t = fromLocal tz (localDay tz t * 86400000 + 86399999)"


definition in_range :: "int \<Rightarrow> bool" where
  "in_range v = (\<bar>v\<bar> \<le> 8640000000000000)"

text \<open>A zone with one offset all year, and a zone with one change of offset.\<close>

definition fixed_zone :: "int \<Rightarrow> LocalTZA" where
  "fixed_zone off = (\<lambda>t isUTC. off)"



section \<open>Example states\<close>

definition example_order :: Order where
  "example_order =
     \<lparr>id_order = 41, timestamp = 1700000000000, tableNumber = ''7'', customerName = ''Mo'',
      customerId = None,
      items = [\<lparr>id_item = 1, name_item = ''Signature Espresso'', price = 3500,
                category = ''Coffee'', image = None, description = None,
                quantity = 2, instructions = None, cartId = None\<rparr>,
               \<lparr>id_item = 3, name_item = ''Blueberry Muffin'', price = 4000,
                category = ''Pastry'', image = None, description = None,
                quantity = 1, instructions = None, cartId = None\<rparr>],
      total = 11000, status = pending\<rparr>"

definition example_bus :: DBService where
  "example_bus =
     unsubscribe 2 (subscribe 2 (subscribe 1
       (write_orders [example_order] new_DBService)))"

text \<open>Listener 1, which throws on every event, subscribed before listener 2.\<close>

definition throwing_bus :: DBService where
  "throwing_bus =
     (subscribe 2 (subscribe 1 (write_orders [example_order] new_DBService)))
       \<lparr>throws := (\<lambda>l event. l = 1)\<rparr>"

definition example_order2 :: Order where
  "example_order2 =
     \<lparr>id_order = 42, timestamp = 1700000060000, tableNumber = ''2'', customerName = ''Aye'',
      customerId = Some ''CUST-1699999999999'',
      items = [\<lparr>id_item = 2, name_item = ''Oat Milk Latte'', price = 5500,
                category = ''Coffee'', image = None, description = None,
                quantity = 1, instructions = Some ''less ice'', cartId = None\<rparr>],
      total = 5500, status = pending\<rparr>"

definition example_store :: DBService where
  "example_store = subscribe 1 (write_orders [example_order, example_order2] (init new_DBService))"

definition latte :: MenuItem where
  "latte = \<lparr>id_item = 0, name_item = ''Latte'', price = 5000, category = ''Coffee'',
            image = None, description = None\<rparr>"

definition latte_order :: Order where
  "latte_order =
     \<lparr>id_order = 1700000100000, timestamp = 1700000100000, tableNumber = ''5'',
      customerName = ''Guest'', customerId = None,
      items = [\<lparr>id_item = 1700000000000, name_item = ''Latte'', price = 5000,
                category = ''Coffee'', image = None, description = None,
                quantity = 1, instructions = None, cartId = None\<rparr>],
      total = 5000, status = pending\<rparr>"

text \<open>A kiosk that last saw order 41 as \<open>ready\<close>, and a store where it is \<open>preparing\<close> again.\<close>

definition kiosk_saw_ready :: Kiosk where
  "kiosk_saw_ready =
     \<lparr>activeOrderId = Some 41, activeOrder = Some (example_order\<lparr>status := ready\<rparr>),
      notifications = [], isTrackingMinimized = True, played = []\<rparr>"

definition kiosk_saw_pending :: Kiosk where
  "kiosk_saw_pending =
     \<lparr>activeOrderId = Some 41, activeOrder = Some example_order,
      notifications = [], isTrackingMinimized = True, played = []\<rparr>"

definition store_preparing :: DBService where
  "store_preparing = write_orders [example_order\<lparr>status := preparing\<rparr>] (init new_DBService)"

definition store_ready :: DBService where
  "store_ready = write_orders [example_order\<lparr>status := ready\<rparr>] (init new_DBService)"

definition mocha :: MenuItem where
  "mocha = \<lparr>id_item = 0, name_item = ''Mocha'', price = 6000, category = ''Coffee'',
            image = None, description = None\<rparr>"

definition mo :: CustomerData where
  "mo = \<lparr>name_data = ''Mo'', phone_data = ''09123'', address_data = ''Yangon'',
         password_data = Some ''x''\<rparr>"

definition aye :: CustomerData where
  "aye = \<lparr>name_data = ''Aye'', phone_data = ''09456'', address_data = ''Mandalay'',
          password_data = Some ''y''\<rparr>"

text \<open>
  Myanmar time is six and a half hours ahead of UTC all year. In that zone the local
  day of the example order ends at 1700069399999.
\<close>

definition mmt :: LocalTZA where
  "mmt = fixed_zone 23400000"














section \<open>Basic facts\<close>

subsection \<open>Sorting by the comparator of \<open>getOrders\<close>\<close>

lemma insert_by_timestamp:
  "insert_by (\<lambda>a b. timestamp b - timestamp a) x xs = insort_key (\<lambda>x. - timestamp x) x xs"
  by (induction xs) auto

lemma sort_by_timestamp:
  "sort_by (\<lambda>a b. timestamp b - timestamp a) xs = sort_key (\<lambda>x. - timestamp x) xs"
  by (induction xs) (auto simp: insert_by_timestamp)

lemma getOrders_sort_key: "getOrders s = sort_key (\<lambda>x. - timestamp x) (stored_orders s)"
  by (simp add: getOrders_def stored_orders_def sort_by_timestamp)

lemma mset_getOrders: "mset (getOrders s) = mset (stored_orders s)"
  by (simp add: getOrders_sort_key)

lemma set_getOrders: "set (getOrders s) = set (stored_orders s)"
  by (simp add: getOrders_sort_key)

lemma length_getOrders: "length (getOrders s) = length (stored_orders s)"
  by (simp add: getOrders_sort_key)

lemma sorted_key_getOrders: "sorted (map (\<lambda>x. - timestamp x) (getOrders s))"
  by (simp add: getOrders_sort_key)

lemma sorted_desc_iff:
  "sorted_wrt (\<lambda>a b. timestamp b \<le> timestamp a) xs = sorted (map (\<lambda>x. - timestamp x) xs)"
  by (simp add: sorted_map)

lemma sorted_getOrders: "sorted_wrt (\<lambda>a b. timestamp b \<le> timestamp a) (getOrders s)"
  by (simp add: sorted_desc_iff sorted_key_getOrders)

text \<open>Sorting again what \<open>getOrders\<close> would return changes nothing.\<close>

lemma getOrders_write_sorted:
  assumes "sorted (map (\<lambda>x. - timestamp x) xs)"
  shows "getOrders (write_orders xs s) = xs"
  using assms
  by (simp add: getOrders_sort_key stored_orders_def write_orders_def parse_or_empty_def
      sort_key_id_if_sorted)

subsection \<open>The listener loop\<close>

lemma forEach_call_called:
  "fst (forEach_call th ls)
   = takeWhile (\<lambda>l. \<not> th l) ls @ take 1 (dropWhile (\<lambda>l. \<not> th l) ls)"
  by (induction ls) (auto split: prod.splits)

lemma forEach_call_thrown: "snd (forEach_call th ls) = find th ls"
  by (induction ls) (auto split: prod.splits)

lemma delivered_to_all:
  "\<forall>l\<in>set (listeners s). \<not> throws s l e \<Longrightarrow> delivered_to e s = listeners s"
proof -
  assume a: "\<forall>l\<in>set (listeners s). \<not> throws s l e"
  then have t: "takeWhile (\<lambda>l. \<not> throws s l e) (listeners s) = listeners s"
    by (simp add: takeWhile_eq_all_conv)
  from a have d: "dropWhile (\<lambda>l. \<not> throws s l e) (listeners s) = []"
    by (simp add: dropWhile_eq_Nil_conv)
  show ?thesis
    unfolding delivered_to_def t d by simp
qed

lemma delivered_to_prefix: "\<exists>rest. listeners s = delivered_to e s @ rest"
proof -
  have "listeners s
        = takeWhile (\<lambda>l. \<not> throws s l e) (listeners s)
          @ dropWhile (\<lambda>l. \<not> throws s l e) (listeners s)"
    by simp
  also have "dropWhile (\<lambda>l. \<not> throws s l e) (listeners s)
        = take 1 (dropWhile (\<lambda>l. \<not> throws s l e) (listeners s))
          @ drop 1 (dropWhile (\<lambda>l. \<not> throws s l e) (listeners s))"
    by simp
  finally have "listeners s
        = delivered_to e s @ drop 1 (dropWhile (\<lambda>l. \<not> throws s l e) (listeners s))"
    by (simp add: delivered_to_def)
  then show ?thesis
    by blast
qed

lemma delivered_to_reaches:
  assumes "listeners s = pre @ l # post" and "\<forall>l'\<in>set pre. \<not> throws s l' e"
  shows "\<exists>rest. delivered_to e s = pre @ l # rest \<and> (\<exists>rest'. post = rest @ rest')"
proof (cases "throws s l e")
  case True
  with assms have "delivered_to e s = pre @ [l]"
    by (simp add: delivered_to_def takeWhile_append2 dropWhile_append2)
  then show ?thesis
    by simp
next
  case False
  with assms have t: "takeWhile (\<lambda>l. \<not> throws s l e) (listeners s)
      = pre @ l # takeWhile (\<lambda>l. \<not> throws s l e) post"
    and d: "dropWhile (\<lambda>l. \<not> throws s l e) (listeners s)
      = dropWhile (\<lambda>l. \<not> throws s l e) post"
    by (simp_all add: takeWhile_append2 dropWhile_append2)
  have "post = (takeWhile (\<lambda>l. \<not> throws s l e) post
                @ take 1 (dropWhile (\<lambda>l. \<not> throws s l e) post))
               @ drop 1 (dropWhile (\<lambda>l. \<not> throws s l e) post)"
    by simp
  with t d show ?thesis
    unfolding delivered_to_def by (metis append_Cons append_assoc)
qed

subsection \<open>What the bus and the store writes leave alone\<close>

lemma fst_notifyListeners:
  "fst (notifyListeners e s) = s\<lparr>calls := calls s @ map (\<lambda>l. (l, e)) (delivered_to e s)\<rparr>"
proof -
  obtain called thrown where c: "forEach_call (\<lambda>l. throws s l e) (listeners s) = (called, thrown)"
    by (cases "forEach_call (\<lambda>l. throws s l e) (listeners s)")
  then have "called = delivered_to e s"
    using forEach_call_called [of "\<lambda>l. throws s l e" "listeners s"]
    by (simp add: delivered_to_def)
  with c show ?thesis
    by (simp add: notifyListeners_def)
qed

lemma snd_notifyListeners:
  "snd (notifyListeners e s)
   = (case find (\<lambda>l. throws s l e) (listeners s) of
        None \<Rightarrow> Inr () | Some l \<Rightarrow> Inl (ListenerError l))"
proof -
  obtain called thrown where c: "forEach_call (\<lambda>l. throws s l e) (listeners s) = (called, thrown)"
    by (cases "forEach_call (\<lambda>l. throws s l e) (listeners s)")
  then have "thrown = find (\<lambda>l. throws s l e) (listeners s)"
    using forEach_call_thrown [of "\<lambda>l. throws s l e" "listeners s"] by simp
  with c show ?thesis
    by (simp add: notifyListeners_def)
qed

lemma delivered_to_channel [simp]: "delivered_to e (s\<lparr>channel := c\<rparr>) = delivered_to e s"
  by (simp add: delivered_to_def)

lemma storage_broadcastUpdate [simp]: "storage (fst (broadcastUpdate e s)) = storage s"
  by (simp add: broadcastUpdate_def fst_notifyListeners)

lemma listeners_broadcastUpdate [simp]: "listeners (fst (broadcastUpdate e s)) = listeners s"
  by (simp add: broadcastUpdate_def fst_notifyListeners)

lemma throws_broadcastUpdate [simp]: "throws (fst (broadcastUpdate e s)) = throws s"
  by (simp add: broadcastUpdate_def fst_notifyListeners)

lemma channel_broadcastUpdate [simp]: "channel (fst (broadcastUpdate e s)) = channel s @ [e]"
  by (simp add: broadcastUpdate_def fst_notifyListeners)

lemma calls_broadcastUpdate [simp]:
  "calls (fst (broadcastUpdate e s)) = calls s @ map (\<lambda>l. (l, e)) (delivered_to e s)"
  by (simp add: broadcastUpdate_def fst_notifyListeners)

lemma snd_broadcastUpdate:
  "snd (broadcastUpdate e s)
   = (case find (\<lambda>l. throws s l e) (listeners s) of
        None \<Rightarrow> Inr () | Some l \<Rightarrow> Inl (ListenerError l))"
  by (simp add: broadcastUpdate_def snd_notifyListeners)

lemma fst_then_return [simp]: "fst (then_return r v) = fst r"
  by (simp add: then_return_def)

lemma stored_orders_broadcastUpdate [simp]:
  "stored_orders (fst (broadcastUpdate e s)) = stored_orders s"
  by (simp add: stored_orders_def)

lemma getOrders_broadcastUpdate [simp]: "getOrders (fst (broadcastUpdate e s)) = getOrders s"
  by (simp add: getOrders_def)

lemma stored_orders_write_orders [simp]: "stored_orders (write_orders xs s) = xs"
  by (simp add: stored_orders_def write_orders_def parse_or_empty_def)

lemma write_orders_other [simp]:
  "listeners (write_orders xs s) = listeners s"
  "channel (write_orders xs s) = channel s"
  "calls (write_orders xs s) = calls s"
  "throws (write_orders xs s) = throws s"
  "hm_pos_menu (storage (write_orders xs s)) = hm_pos_menu (storage s)"
  "hm_pos_customers (storage (write_orders xs s)) = hm_pos_customers (storage s)"
  by (simp_all add: write_orders_def)

lemma write_menu_other [simp]:
  "listeners (write_menu m s) = listeners s"
  "channel (write_menu m s) = channel s"
  "calls (write_menu m s) = calls s"
  "throws (write_menu m s) = throws s"
  "hm_pos_orders (storage (write_menu m s)) = hm_pos_orders (storage s)"
  "hm_pos_customers (storage (write_menu m s)) = hm_pos_customers (storage s)"
  by (simp_all add: write_menu_def)

lemma delivered_to_write_orders [simp]: "delivered_to e (write_orders xs s) = delivered_to e s"
  by (simp add: delivered_to_def)

lemma delivered_to_write_menu [simp]: "delivered_to e (write_menu m s) = delivered_to e s"
  by (simp add: delivered_to_def)

lemma getMenu_write_menu [simp]: "getMenu (write_menu m s) = m"
  by (simp add: getMenu_def write_menu_def parse_or_empty_def)

lemma getMenu_broadcastUpdate [simp]: "getMenu (fst (broadcastUpdate e s)) = getMenu s"
  by (simp add: getMenu_def)

lemma new_calls_append [simp]: "calls s' = calls s @ cs \<Longrightarrow> new_calls s s' = cs"
  by (simp add: new_calls_def)

lemma new_posts_append [simp]: "channel s' = channel s @ es \<Longrightarrow> new_posts s s' = es"
  by (simp add: new_posts_def)

lemma new_calls_same [simp]: "new_calls s s = []"
  by (simp add: new_calls_def)

lemma new_posts_same [simp]: "new_posts s s = []"
  by (simp add: new_posts_def)

lemma count_list_map_pair:
  "count_list (map (\<lambda>l. (l, e)) ls) (l', e') = (if e' = e then count_list ls l' else 0)"
  by (induction ls) auto

lemma count_list_filter_neq:
  "count_list (filter (\<lambda>l'. l' \<noteq> l) ls) k = (if k = l then 0 else count_list ls k)"
  by (induction ls) auto

subsection \<open>Finding and assigning\<close>

lemma find_None_iff_set: "(find P xs = None) = (\<forall>x\<in>set xs. \<not> P x)"
  by (induction xs) auto

lemma find_Some_set: "find P xs = Some x \<Longrightarrow> x \<in> set xs \<and> P x"
  by (induction xs) (auto split: if_splits)

lemma map_assign_first:
  "(\<And>x. g (f x) = g x) \<Longrightarrow> map g (assign_first P f xs) = map g xs"
  by (induction xs) auto

lemma length_assign_first [simp]: "length (assign_first P f xs) = length xs"
  by (induction xs) auto

lemma mset_assign_first:
  "find P xs = Some x \<Longrightarrow>
   mset (assign_first P f xs) = add_mset (f x) (mset xs - {#x#})"
proof (induction xs)
  case Nil
  then show ?case by simp
next
  case (Cons y ys)
  show ?case
  proof (cases "P y")
    case True
    with Cons.prems show ?thesis by simp
  next
    case False
    with Cons.prems have fx: "find P ys = Some x" by simp
    then have "x \<in> set ys" by (simp add: find_Some_set)
    then have "x \<in># mset ys" by simp
    with False Cons.IH [OF fx] show ?thesis by simp
  qed
qed


section \<open>Event delivery\<close>

lemma count_delivered_le:
  "count_list (delivered_to e s) l \<le> count_list (listeners s) l"
proof -
  obtain rest where "listeners s = delivered_to e s @ rest"
    using delivered_to_prefix by blast
  then have "count_list (listeners s) l
             = count_list (delivered_to e s) l + count_list rest l"
    by simp
  then show ?thesis
    by simp
qed

lemma count_delivered_one:
  assumes "listeners s = pre @ l # post" and "l \<notin> set pre" and "l \<notin> set post"
    and "\<forall>l'\<in>set pre. \<not> throws s l' e"
  shows "count_list (delivered_to e s) l = 1"
proof -
  from delivered_to_reaches [OF assms(1) assms(4)]
  obtain rest rest' where d: "delivered_to e s = pre @ l # rest" and p: "post = rest @ rest'"
    by blast
  from p assms(3) have "l \<notin> set rest"
    by simp
  with assms(2) d show ?thesis
    by simp
qed

lemma new_calls_updateOrderStatus:
  assumes "\<exists>x\<in>set (getOrders s). id_order x = i"
  shows "new_calls s (fst (updateOrderStatus i st s))
         = map (\<lambda>l. (l, \<lparr>type_event = STATUS_UPDATE, data = Some (StatusData i st)\<rparr>))
             (delivered_to \<lparr>type_event = STATUS_UPDATE, data = Some (StatusData i st)\<rparr> s)"
proof -
  from assms have "find (\<lambda>x. id_order x = i) (getOrders s) \<noteq> None"
    by (simp add: find_None_iff_set)
  then obtain x where "find (\<lambda>x. id_order x = i) (getOrders s) = Some x"
    by blast
  then show ?thesis
    by (simp add: updateOrderStatus_def)
qed

text \<open>
  Claim C2, as the code has it. A publish calls the listeners that are registered at
  that moment, in the order of registration, each with the published event and with
  nothing else, once for each registration, until a call throws: the loop ends with
  the first listener that throws, and the listeners registered after it are not called.
  So no listener is called more often than it is registered; when no registered
  listener throws, every listener is called once for each registration and the
  publish returns; a listener that is registered once, with no throwing listener
  registered before it, is called exactly once; and a listener with no registration
  (never subscribed, or removed by an unsubscribe closure, which removes every
  registration of that function) is not called. After \<open>updateOrderStatus\<close> on an
  existing order this is how \<open>STATUS_UPDATE\<close> with \<open>{orderId, status}\<close> is delivered.
\<close>

theorem publish_calls_subscriptions_until_throw:
  "new_calls s (fst (broadcastUpdate e s)) = map (\<lambda>l. (l, e)) (delivered_to e s)
   \<and> (\<exists>rest. listeners s = delivered_to e s @ rest)
   \<and> count_list (new_calls s (fst (broadcastUpdate e s))) (l, e) \<le> count_list (listeners s) l
   \<and> ((\<forall>l'\<in>set (listeners s). \<not> throws s l' e) \<longrightarrow>
        new_calls s (fst (broadcastUpdate e s)) = map (\<lambda>l. (l, e)) (listeners s)
        \<and> count_list (new_calls s (fst (broadcastUpdate e s))) (l, e) = count_list (listeners s) l
        \<and> snd (broadcastUpdate e s) = Inr ())
   \<and> (\<forall>pre post. listeners s = pre @ l # post \<and> l \<notin> set pre \<and> l \<notin> set post
          \<and> (\<forall>l'\<in>set pre. \<not> throws s l' e) \<longrightarrow>
        count_list (new_calls s (fst (broadcastUpdate e s))) (l, e) = 1)
   \<and> (l \<notin> set (listeners s) \<longrightarrow>
        (\<forall>e'. (l, e') \<notin> set (new_calls s (fst (broadcastUpdate e s)))))
   \<and> (\<forall>e'. e' \<noteq> e \<longrightarrow> (l, e') \<notin> set (new_calls s (fst (broadcastUpdate e s))))
   \<and> count_list (listeners (subscribe l s)) l = Suc (count_list (listeners s) l)
   \<and> l \<notin> set (listeners (unsubscribe l s))
   \<and> (\<forall>l'. l' \<noteq> l \<longrightarrow>
         count_list (listeners (subscribe l s)) l' = count_list (listeners s) l'
         \<and> count_list (listeners (unsubscribe l s)) l' = count_list (listeners s) l')
   \<and> listeners new_DBService = []
   \<and> ((\<exists>x\<in>set (getOrders s). id_order x = i) \<longrightarrow>
        new_calls s (fst (updateOrderStatus i st s))
          = map (\<lambda>l. (l, \<lparr>type_event = STATUS_UPDATE, data = Some (StatusData i st)\<rparr>))
              (delivered_to \<lparr>type_event = STATUS_UPDATE, data = Some (StatusData i st)\<rparr> s))"
proof -
  let ?s' = "fst (broadcastUpdate e s)"
  have c: "new_calls s ?s' = map (\<lambda>l. (l, e)) (delivered_to e s)"
    by simp
  have p: "\<exists>rest. listeners s = delivered_to e s @ rest"
    by (rule delivered_to_prefix)
  have le: "count_list (new_calls s ?s') (l, e) \<le> count_list (listeners s) l"
    by (simp add: c count_list_map_pair count_delivered_le)
  have all: "(\<forall>l'\<in>set (listeners s). \<not> throws s l' e) \<longrightarrow>
        new_calls s ?s' = map (\<lambda>l. (l, e)) (listeners s)
        \<and> count_list (new_calls s ?s') (l, e) = count_list (listeners s) l
        \<and> snd (broadcastUpdate e s) = Inr ()"
  proof
    assume a: "\<forall>l'\<in>set (listeners s). \<not> throws s l' e"
    then have d: "delivered_to e s = listeners s"
      by (rule delivered_to_all)
    from a have "find (\<lambda>l. throws s l e) (listeners s) = None"
      by (simp add: find_None_iff_set)
    then have "snd (broadcastUpdate e s) = Inr ()"
      by (simp add: snd_broadcastUpdate)
    then show "new_calls s ?s' = map (\<lambda>l. (l, e)) (listeners s)
        \<and> count_list (new_calls s ?s') (l, e) = count_list (listeners s) l
        \<and> snd (broadcastUpdate e s) = Inr ()"
      by (simp add: c d count_list_map_pair)
  qed
  have one: "\<forall>pre post. listeners s = pre @ l # post \<and> l \<notin> set pre \<and> l \<notin> set post
          \<and> (\<forall>l'\<in>set pre. \<not> throws s l' e) \<longrightarrow>
        count_list (new_calls s ?s') (l, e) = 1"
  proof (intro allI impI)
    fix pre post
    assume "listeners s = pre @ l # post \<and> l \<notin> set pre \<and> l \<notin> set post
          \<and> (\<forall>l'\<in>set pre. \<not> throws s l' e)"
    then have "count_list (delivered_to e s) l = 1"
      by (intro count_delivered_one [of s pre l post e]) simp_all
    then show "count_list (new_calls s ?s') (l, e) = 1"
      by (simp add: c count_list_map_pair)
  qed
  have sub_del: "set (delivered_to e s) \<subseteq> set (listeners s)"
    using p by (metis Un_upper1 set_append)
  have a: "l \<notin> set (listeners s) \<longrightarrow> (\<forall>e'. (l, e') \<notin> set (new_calls s ?s'))"
    using sub_del by (auto simp: c)
  have b: "\<forall>e'. e' \<noteq> e \<longrightarrow> (l, e') \<notin> set (new_calls s ?s')"
    by (auto simp: c)
  have sub: "count_list (listeners (subscribe l s)) l = Suc (count_list (listeners s) l)"
    by (simp add: subscribe_def)
  have unsub: "l \<notin> set (listeners (unsubscribe l s))"
    by (simp add: unsubscribe_def)
  have others: "\<forall>l'. l' \<noteq> l \<longrightarrow>
         count_list (listeners (subscribe l s)) l' = count_list (listeners s) l'
         \<and> count_list (listeners (unsubscribe l s)) l' = count_list (listeners s) l'"
    by (simp add: subscribe_def unsubscribe_def count_list_filter_neq)
  have fresh: "listeners new_DBService = []"
    by (simp add: new_DBService_def)
  have upd: "(\<exists>x\<in>set (getOrders s). id_order x = i) \<longrightarrow>
        new_calls s (fst (updateOrderStatus i st s))
          = map (\<lambda>l. (l, \<lparr>type_event = STATUS_UPDATE, data = Some (StatusData i st)\<rparr>))
              (delivered_to \<lparr>type_event = STATUS_UPDATE, data = Some (StatusData i st)\<rparr> s)"
    by (intro impI new_calls_updateOrderStatus)
  from c p le all one a b sub unsub others fresh upd show ?thesis
    by (intro conjI)
qed

text \<open>
  Listeners 1 and 2 subscribe, 2 unsubscribes, no listener throws; then the status of
  the stored order 41 is set to \<open>preparing\<close>: listener 1 is called once with the event,
  listener 2 is not, and the call returns.
\<close>

theorem publish_calls_subscriptions_until_throw_witness:
  "(\<exists>x\<in>set (getOrders example_bus). id_order x = 41)
   \<and> listeners example_bus = [] @ 1 # []
   \<and> \<not> throws example_bus 1 \<lparr>type_event = MENU_UPDATE, data = None\<rparr>
   \<and> 2 \<notin> set (listeners example_bus)
   \<and> new_calls example_bus (fst (updateOrderStatus 41 preparing example_bus))
       = [(1, \<lparr>type_event = STATUS_UPDATE, data = Some (StatusData 41 preparing)\<rparr>)]
   \<and> count_list (new_calls example_bus
         (fst (broadcastUpdate \<lparr>type_event = MENU_UPDATE, data = None\<rparr> example_bus)))
         (1, \<lparr>type_event = MENU_UPDATE, data = None\<rparr>) = 1
   \<and> snd (broadcastUpdate \<lparr>type_event = MENU_UPDATE, data = None\<rparr> example_bus) = Inr ()
   \<and> (\<forall>e'. (2, e') \<notin> set (new_calls example_bus
         (fst (broadcastUpdate \<lparr>type_event = MENU_UPDATE, data = None\<rparr> example_bus))))"
proof -
  let ?m = "\<lparr>type_event = MENU_UPDATE, data = None\<rparr>"
  let ?u = "\<lparr>type_event = STATUS_UPDATE, data = Some (StatusData 41 preparing)\<rparr>"
  have ls: "listeners example_bus = [1]"
    by (simp add: example_bus_def unsubscribe_def subscribe_def new_DBService_def)
  have th: "throws example_bus = (\<lambda>l event. False)"
    by (simp add: example_bus_def unsubscribe_def subscribe_def new_DBService_def
        write_orders_def)
  have go: "getOrders example_bus = [example_order]"
    by (simp add: example_bus_def unsubscribe_def subscribe_def new_DBService_def
        getOrders_def write_orders_def parse_or_empty_def)
  have ex: "\<exists>x\<in>set (getOrders example_bus). id_order x = 41"
    by (simp add: go example_order_def)
  have nt: "\<forall>l'\<in>set (listeners example_bus). \<not> throws example_bus l' ?m"
    by (simp add: th)
  have pp: "listeners example_bus = [] @ 1 # [] \<and> 1 \<notin> set [] \<and> 1 \<notin> set []
            \<and> (\<forall>l'\<in>set []. \<not> throws example_bus l' ?m)"
    by (simp add: ls)
  have two: "2 \<notin> set (listeners example_bus)"
    by (simp add: ls)
  have du: "delivered_to ?u example_bus = [1]"
    by (simp add: delivered_to_def ls th)
  from publish_calls_subscriptions_until_throw [of example_bus ?m 1 41 preparing] ex nt pp
  have u: "new_calls example_bus (fst (updateOrderStatus 41 preparing example_bus))
             = map (\<lambda>l. (l, ?u)) (delivered_to ?u example_bus)"
    and o: "count_list (new_calls example_bus (fst (broadcastUpdate ?m example_bus))) (1, ?m) = 1"
    and r: "snd (broadcastUpdate ?m example_bus) = Inr ()"
    by blast+
  from publish_calls_subscriptions_until_throw [of example_bus ?m 2 41 preparing] two
  have n: "\<forall>e'. (2, e') \<notin> set (new_calls example_bus (fst (broadcastUpdate ?m example_bus)))"
    by blast
  from ex two o r n show ?thesis
    by (simp add: u du ls th)
qed

text \<open>
  Against claim C2 as stated: listener 1, which throws, and then listener 2 are
  subscribed, each once, when the status of the stored order 41 is set. Listener 1 is
  called and throws; listener 2, subscribed at publish time, is not called, and the
  operation is rejected with the exception of listener 1.
\<close>

theorem publish_stops_at_throwing_listener_counterexample:
  "listeners throwing_bus = [1, 2]
   \<and> count_list (listeners throwing_bus) 2 = 1
   \<and> (\<exists>x\<in>set (getOrders throwing_bus). id_order x = 41)
   \<and> new_calls throwing_bus (fst (updateOrderStatus 41 preparing throwing_bus))
       = [(1, \<lparr>type_event = STATUS_UPDATE, data = Some (StatusData 41 preparing)\<rparr>)]
   \<and> count_list (new_calls throwing_bus (fst (updateOrderStatus 41 preparing throwing_bus)))
        (2, \<lparr>type_event = STATUS_UPDATE, data = Some (StatusData 41 preparing)\<rparr>) = 0
   \<and> snd (updateOrderStatus 41 preparing throwing_bus) = Inl (ListenerError 1)"
proof -
  have ls: "listeners throwing_bus = [1, 2]"
    by (simp add: throwing_bus_def subscribe_def new_DBService_def)
  have go: "getOrders throwing_bus = [example_order]"
    by (simp add: throwing_bus_def subscribe_def new_DBService_def getOrders_def
        write_orders_def parse_or_empty_def)
  have i: "id_order example_order = 41"
    by (simp add: example_order_def)
  have th: "throws throwing_bus = (\<lambda>l event. l = 1)"
    by (simp add: throwing_bus_def)
  show ?thesis
    by (simp add: ls go i th updateOrderStatus_def broadcastUpdate_def notifyListeners_def
        write_orders_def new_calls_def)
qed


section \<open>Order status updates\<close>

lemma getOrders_assign_status:
  "getOrders (write_orders (assign_first P (\<lambda>x. x\<lparr>status := st\<rparr>) (getOrders s)) s')
   = assign_first P (\<lambda>x. x\<lparr>status := st\<rparr>) (getOrders s)"
proof (rule getOrders_write_sorted)
  have "map (\<lambda>x. - timestamp x) (assign_first P (\<lambda>x. x\<lparr>status := st\<rparr>) (getOrders s))
        = map (\<lambda>x. - timestamp x) (getOrders s)"
    by (rule map_assign_first) simp
  then show "sorted (map (\<lambda>x. - timestamp x)
               (assign_first P (\<lambda>x. x\<lparr>status := st\<rparr>) (getOrders s)))"
    by (simp add: sorted_key_getOrders)
qed

lemma updateOrderStatus_found:
  assumes "find (\<lambda>x. id_order x = i) (getOrders s) = Some old"
  shows "updateOrderStatus i st s =
         broadcastUpdate \<lparr>type_event = STATUS_UPDATE, data = Some (StatusData i st)\<rparr>
           (write_orders (assign_first (\<lambda>x. id_order x = i) (\<lambda>x. x\<lparr>status := st\<rparr>)
              (getOrders s)) s)"
  using assms by (simp add: updateOrderStatus_def)

lemma updateOrderStatus_not_found:
  assumes "find (\<lambda>x. id_order x = i) (getOrders s) = None"
  shows "updateOrderStatus i st s = (s, Inr ())"
  using assms by (simp add: updateOrderStatus_def)

text \<open>
  Claim C1. When an order with the given id is stored, \<open>updateOrderStatus\<close> replaces one
  stored order \<open>old\<close> with that id (the first one that \<open>getOrders\<close> lists) by the same
  order with the new status: id, timestamp, table number, customer, items and total of
  that order are as before, every other stored order is as before, the menu and the
  customers are untouched, and exactly one event, \<open>STATUS_UPDATE\<close> with the id and the
  status, is posted to the channel and passed to the listeners that the publish
  reaches. When no stored order has the id, the call returns and the state after it
  is the state before it: nothing is written and nothing is published.
\<close>

theorem updateOrderStatus_changes_only_status:
  "((\<exists>x\<in>set (stored_orders s). id_order x = i) \<longrightarrow>
      (\<exists>old\<in>set (stored_orders s).
         id_order old = i
         \<and> find (\<lambda>x. id_order x = i) (getOrders s) = Some old
         \<and> mset (stored_orders (fst (updateOrderStatus i st s)))
             = add_mset (old\<lparr>status := st\<rparr>) (mset (stored_orders s) - {#old#})
         \<and> getOrders (fst (updateOrderStatus i st s))
             = assign_first (\<lambda>x. id_order x = i) (\<lambda>x. x\<lparr>status := st\<rparr>) (getOrders s)
         \<and> status (old\<lparr>status := st\<rparr>) = st
         \<and> id_order (old\<lparr>status := st\<rparr>) = id_order old
         \<and> total (old\<lparr>status := st\<rparr>) = total old
         \<and> items (old\<lparr>status := st\<rparr>) = items old
         \<and> timestamp (old\<lparr>status := st\<rparr>) = timestamp old
         \<and> tableNumber (old\<lparr>status := st\<rparr>) = tableNumber old
         \<and> customerName (old\<lparr>status := st\<rparr>) = customerName old
         \<and> customerId (old\<lparr>status := st\<rparr>) = customerId old)
      \<and> hm_pos_menu (storage (fst (updateOrderStatus i st s))) = hm_pos_menu (storage s)
      \<and> hm_pos_customers (storage (fst (updateOrderStatus i st s))) = hm_pos_customers (storage s)
      \<and> listeners (fst (updateOrderStatus i st s)) = listeners s
      \<and> new_posts s (fst (updateOrderStatus i st s))
          = [\<lparr>type_event = STATUS_UPDATE, data = Some (StatusData i st)\<rparr>]
      \<and> new_calls s (fst (updateOrderStatus i st s))
          = map (\<lambda>l. (l, \<lparr>type_event = STATUS_UPDATE, data = Some (StatusData i st)\<rparr>))
              (delivered_to \<lparr>type_event = STATUS_UPDATE, data = Some (StatusData i st)\<rparr> s))
   \<and> (\<not> (\<exists>x\<in>set (stored_orders s). id_order x = i) \<longrightarrow>
        updateOrderStatus i st s = (s, Inr ()))"
proof (intro conjI impI)
  assume ex: "\<exists>x\<in>set (stored_orders s). id_order x = i"
  then have "find (\<lambda>x. id_order x = i) (getOrders s) \<noteq> None"
    by (simp add: find_None_iff_set set_getOrders)
  then obtain old where f: "find (\<lambda>x. id_order x = i) (getOrders s) = Some old"
    by blast
  note u = updateOrderStatus_found [OF f, of st]
  from f have mem: "old \<in> set (stored_orders s)" and oid: "id_order old = i"
    using find_Some_set [OF f] by (simp_all add: set_getOrders)
  have m: "mset (stored_orders (fst (updateOrderStatus i st s)))
             = add_mset (old\<lparr>status := st\<rparr>) (mset (stored_orders s) - {#old#})"
    by (simp add: u mset_assign_first [OF f] mset_getOrders)
  have g: "getOrders (fst (updateOrderStatus i st s))
             = assign_first (\<lambda>x. id_order x = i) (\<lambda>x. x\<lparr>status := st\<rparr>) (getOrders s)"
    by (simp add: u getOrders_assign_status)
  from mem oid f m g
  show "\<exists>old\<in>set (stored_orders s).
         id_order old = i
         \<and> find (\<lambda>x. id_order x = i) (getOrders s) = Some old
         \<and> mset (stored_orders (fst (updateOrderStatus i st s)))
             = add_mset (old\<lparr>status := st\<rparr>) (mset (stored_orders s) - {#old#})
         \<and> getOrders (fst (updateOrderStatus i st s))
             = assign_first (\<lambda>x. id_order x = i) (\<lambda>x. x\<lparr>status := st\<rparr>) (getOrders s)
         \<and> status (old\<lparr>status := st\<rparr>) = st
         \<and> id_order (old\<lparr>status := st\<rparr>) = id_order old
         \<and> total (old\<lparr>status := st\<rparr>) = total old
         \<and> items (old\<lparr>status := st\<rparr>) = items old
         \<and> timestamp (old\<lparr>status := st\<rparr>) = timestamp old
         \<and> tableNumber (old\<lparr>status := st\<rparr>) = tableNumber old
         \<and> customerName (old\<lparr>status := st\<rparr>) = customerName old
         \<and> customerId (old\<lparr>status := st\<rparr>) = customerId old"
    by (intro bexI [of _ old]) simp_all
  show "hm_pos_menu (storage (fst (updateOrderStatus i st s))) = hm_pos_menu (storage s)"
    by (simp add: u)
  show "hm_pos_customers (storage (fst (updateOrderStatus i st s))) = hm_pos_customers (storage s)"
    by (simp add: u)
  show "listeners (fst (updateOrderStatus i st s)) = listeners s"
    by (simp add: u)
  show "new_posts s (fst (updateOrderStatus i st s))
          = [\<lparr>type_event = STATUS_UPDATE, data = Some (StatusData i st)\<rparr>]"
    by (simp add: u)
  show "new_calls s (fst (updateOrderStatus i st s))
          = map (\<lambda>l. (l, \<lparr>type_event = STATUS_UPDATE, data = Some (StatusData i st)\<rparr>))
              (delivered_to \<lparr>type_event = STATUS_UPDATE, data = Some (StatusData i st)\<rparr> s)"
    by (simp add: u)
next
  assume "\<not> (\<exists>x\<in>set (stored_orders s). id_order x = i)"
  then have "find (\<lambda>x. id_order x = i) (getOrders s) = None"
    by (simp add: find_None_iff_set set_getOrders)
  then show "updateOrderStatus i st s = (s, Inr ())"
    by (rule updateOrderStatus_not_found)
qed

text \<open>
  The example store holds the orders 41 and 42. Setting 41 to \<open>ready\<close> gives the two
  orders back with that one status changed and publishes one event to listener 1;
  setting the status of the unknown id 99 leaves the state as it is.
\<close>

theorem updateOrderStatus_changes_only_status_witness:
  "(\<exists>x\<in>set (stored_orders example_store). id_order x = 41)
   \<and> \<not> (\<exists>x\<in>set (stored_orders example_store). id_order x = 99)
   \<and> getOrders (fst (updateOrderStatus 41 ready example_store))
       = [example_order2, example_order\<lparr>status := ready\<rparr>]
   \<and> new_posts example_store (fst (updateOrderStatus 41 ready example_store))
       = [\<lparr>type_event = STATUS_UPDATE, data = Some (StatusData 41 ready)\<rparr>]
   \<and> new_calls example_store (fst (updateOrderStatus 41 ready example_store))
       = [(1, \<lparr>type_event = STATUS_UPDATE, data = Some (StatusData 41 ready)\<rparr>)]
   \<and> updateOrderStatus 99 ready example_store = (example_store, Inr ())"
proof -
  have so: "stored_orders example_store = [example_order, example_order2]"
    by (simp add: example_store_def subscribe_def stored_orders_def write_orders_def
        parse_or_empty_def)
  have go: "getOrders example_store = [example_order2, example_order]"
    by (simp add: getOrders_def so [unfolded stored_orders_def] example_order_def
        example_order2_def)
  have ls: "delivered_to \<lparr>type_event = STATUS_UPDATE, data = Some (StatusData 41 ready)\<rparr>
              example_store = [1]"
    by (simp add: delivered_to_def example_store_def subscribe_def init_def Let_def
        new_DBService_def write_orders_def)
  have h1: "\<exists>x\<in>set (stored_orders example_store). id_order x = 41"
    by (simp add: so example_order_def)
  have h2: "\<not> (\<exists>x\<in>set (stored_orders example_store). id_order x = 99)"
    by (simp add: so example_order_def example_order2_def)
  from updateOrderStatus_changes_only_status [of example_store 41 ready] h1
  have g: "getOrders (fst (updateOrderStatus 41 ready example_store))
             = assign_first (\<lambda>x. id_order x = 41) (\<lambda>x. x\<lparr>status := ready\<rparr>)
                 (getOrders example_store)"
    and p: "new_posts example_store (fst (updateOrderStatus 41 ready example_store))
             = [\<lparr>type_event = STATUS_UPDATE, data = Some (StatusData 41 ready)\<rparr>]"
    and c: "new_calls example_store (fst (updateOrderStatus 41 ready example_store))
             = map (\<lambda>l. (l, \<lparr>type_event = STATUS_UPDATE, data = Some (StatusData 41 ready)\<rparr>))
                 (delivered_to \<lparr>type_event = STATUS_UPDATE, data = Some (StatusData 41 ready)\<rparr>
                    example_store)"
    by blast+
  from updateOrderStatus_changes_only_status [of example_store 99 ready] h2
  have n: "updateOrderStatus 99 ready example_store = (example_store, Inr ())"
    by blast
  have ids: "id_order example_order = 41" "id_order example_order2 = 42"
    by (simp_all add: example_order_def example_order2_def)
  from h1 h2 n show ?thesis
    by (simp add: g p c go ls ids)
qed


section \<open>Saving, listing and deleting orders\<close>

lemma stored_orders_saveOrder: "stored_orders (fst (saveOrder x s)) = getOrders s @ [x]"
  by (simp add: saveOrder_def)

lemma mset_getOrders_saveOrder:
  "mset (getOrders (fst (saveOrder x s))) = add_mset x (mset (getOrders s))"
  by (simp add: mset_getOrders stored_orders_saveOrder)

lemma mset_getOrders_fold_saveOrder:
  "mset (getOrders (fold (\<lambda>x s. fst (saveOrder x s)) xs s)) = mset xs + mset (getOrders s)"
  by (induction xs arbitrary: s) (simp_all add: mset_getOrders_saveOrder)

text \<open>
  Claim C3. After \<open>saveOrder x\<close> the list that \<open>getOrders\<close> returns holds \<open>x\<close> itself,
  next to exactly the orders listed before, and it is sorted by timestamp, newest
  first. The same holds after any sequence \<open>xs\<close> of saved orders, whatever the order
  of the insertions and whatever the outcome of each call: every saved order is
  listed, and the list is sorted.
\<close>

theorem saveOrder_then_getOrders_sorted:
  "x \<in> set (getOrders (fst (saveOrder x s)))
   \<and> mset (getOrders (fst (saveOrder x s))) = add_mset x (mset (getOrders s))
   \<and> sorted_wrt (\<lambda>a b. timestamp b \<le> timestamp a) (getOrders (fst (saveOrder x s)))
   \<and> mset (getOrders (fold (\<lambda>x s. fst (saveOrder x s)) xs s)) = mset xs + mset (getOrders s)
   \<and> sorted_wrt (\<lambda>a b. timestamp b \<le> timestamp a)
        (getOrders (fold (\<lambda>x s. fst (saveOrder x s)) xs s))
   \<and> sorted_wrt (\<lambda>a b. timestamp b \<le> timestamp a) (getOrders s)"
proof -
  have "x \<in># mset (getOrders (fst (saveOrder x s)))"
    by (simp add: mset_getOrders_saveOrder)
  then have "x \<in> set (getOrders (fst (saveOrder x s)))"
    by simp
  then show ?thesis
    by (simp add: mset_getOrders_saveOrder mset_getOrders_fold_saveOrder sorted_getOrders)
qed


section \<open>Menu edits and stored orders\<close>

lemma stored_orders_menu_call: "stored_orders (menu_call c s) = stored_orders s"
proof (cases c)
  case (AddMenuItem item now)
  then show ?thesis
    by (simp add: addMenuItem_def Let_def stored_orders_def)
next
  case (UpdateMenuItem item)
  then show ?thesis
    by (simp add: updateMenuItem_def Let_def stored_orders_def split: option.splits)
next
  case (DeleteMenuItem i)
  then show ?thesis
    by (simp add: deleteMenuItem_def stored_orders_def)
qed

lemma stored_orders_menu_calls: "stored_orders (fold menu_call cs s) = stored_orders s"
  by (induction cs arbitrary: s) (simp_all add: stored_orders_menu_call)

text \<open>
  Claim C6. A sequence of \<open>addMenuItem\<close>, \<open>updateMenuItem\<close> and \<open>deleteMenuItem\<close> calls
  leaves the stored orders as they are, so \<open>getOrders\<close> returns the same list of the
  same orders, with every field (the items with their prices, the total) as before; an
  order saved before the menu edits is still listed after them.
\<close>

theorem menu_edits_leave_orders:
  "stored_orders (fold menu_call cs s) = stored_orders s
   \<and> getOrders (fold menu_call cs s) = getOrders s
   \<and> getOrders (fold menu_call cs (fst (saveOrder x s))) = getOrders (fst (saveOrder x s))
   \<and> x \<in> set (getOrders (fold menu_call cs (fst (saveOrder x s))))"
proof -
  have g: "getOrders (fold menu_call cs s') = getOrders s'" for s'
    by (simp add: getOrders_sort_key stored_orders_menu_calls)
  have "x \<in># mset (getOrders (fst (saveOrder x s)))"
    by (simp add: mset_getOrders_saveOrder)
  then have "x \<in> set (getOrders (fst (saveOrder x s)))"
    by simp
  then show ?thesis
    by (simp add: g stored_orders_menu_calls)
qed

text \<open>
  Scenario C of the specification: a Latte is added at 5000, an order with a Latte
  line at 5000 is saved, the menu price is raised to 6000; the order read back still
  has the price 5000 and the total 5000, while the menu shows 6000.
\<close>

lemma scenario_C_no_retroactive_price:
  "getOrders (fst (updateMenuItem (latte\<lparr>id_item := 1700000000000, price := 6000\<rparr>)
     (fst (saveOrder latte_order
        (fst (addMenuItem latte 1700000000000 (init new_DBService)))))))
   = [latte_order]
   \<and> map price (items latte_order) = [5000]
   \<and> map price (getMenu (fst (updateMenuItem (latte\<lparr>id_item := 1700000000000, price := 6000\<rparr>)
        (fst (saveOrder latte_order
           (fst (addMenuItem latte 1700000000000 (init new_DBService))))))))
      = [3500, 5500, 4000, 6000]"
  by (simp add: updateMenuItem_def saveOrder_def addMenuItem_def init_def new_DBService_def
      getOrders_def getMenu_def write_menu_def write_orders_def broadcastUpdate_def
      notifyListeners_def then_return_def parse_or_empty_def Let_def latte_def
      latte_order_def INITIAL_MENU_def)


section \<open>Deleting an order\<close>

lemma sorted_key_filter_getOrders:
  "sorted (map (\<lambda>x. - timestamp x) (filter P (getOrders s)))"
  using sorted_key_getOrders [of s] by (simp add: sorted_filter)

lemma getOrders_write_filter:
  "getOrders (write_orders (filter P (getOrders s)) s') = filter P (getOrders s)"
  by (rule getOrders_write_sorted) (rule sorted_key_filter_getOrders)

lemma write_orders_twice: "write_orders ys (write_orders xs s) = write_orders ys s"
  by (simp add: write_orders_def)

lemma storage_write_orders_broadcast:
  "storage (write_orders ys (fst (broadcastUpdate e s))) = storage (write_orders ys s)"
  by (simp add: write_orders_def)

text \<open>
  Claim C10. \<open>deleteOrder i\<close> stores the list of \<open>getOrders\<close> without the orders whose
  id is \<open>i\<close>: exactly those orders are gone, every other order is kept as it was (as
  many times as it was stored), and menu and customers are untouched. It publishes
  one \<open>GENERIC_UPDATE\<close> event whether or not an order matched: the event is posted to
  the channel and passed to the listeners that the publish reaches. Calling it a
  second time leaves the store as the first call left it.
\<close>

theorem deleteOrder_removes_exactly_id:
  "stored_orders (fst (deleteOrder i s)) = filter (\<lambda>x. id_order x \<noteq> i) (getOrders s)
   \<and> getOrders (fst (deleteOrder i s)) = filter (\<lambda>x. id_order x \<noteq> i) (getOrders s)
   \<and> mset (stored_orders (fst (deleteOrder i s)))
       = filter_mset (\<lambda>x. id_order x \<noteq> i) (mset (stored_orders s))
   \<and> set (stored_orders (fst (deleteOrder i s))) = {x \<in> set (stored_orders s). id_order x \<noteq> i}
   \<and> hm_pos_menu (storage (fst (deleteOrder i s))) = hm_pos_menu (storage s)
   \<and> hm_pos_customers (storage (fst (deleteOrder i s))) = hm_pos_customers (storage s)
   \<and> new_posts s (fst (deleteOrder i s)) = [\<lparr>type_event = GENERIC_UPDATE, data = None\<rparr>]
   \<and> new_calls s (fst (deleteOrder i s))
       = map (\<lambda>l. (l, \<lparr>type_event = GENERIC_UPDATE, data = None\<rparr>))
           (delivered_to \<lparr>type_event = GENERIC_UPDATE, data = None\<rparr> s)
   \<and> storage (fst (deleteOrder i (fst (deleteOrder i s)))) = storage (fst (deleteOrder i s))
   \<and> getOrders (fst (deleteOrder i (fst (deleteOrder i s)))) = getOrders (fst (deleteOrder i s))"
proof -
  let ?keep = "\<lambda>x. id_order x \<noteq> i"
  have st: "stored_orders (fst (deleteOrder i s)) = filter ?keep (getOrders s)"
    by (simp add: deleteOrder_def)
  have g: "getOrders (fst (deleteOrder i s')) = filter ?keep (getOrders s')" for s'
    by (simp add: deleteOrder_def getOrders_write_filter)
  have m: "mset (stored_orders (fst (deleteOrder i s))) = filter_mset ?keep (mset (stored_orders s))"
    by (simp add: st mset_getOrders)
  have se: "set (stored_orders (fst (deleteOrder i s))) = {x \<in> set (stored_orders s). id_order x \<noteq> i}"
    by (simp add: st set_getOrders)
  have twice: "storage (fst (deleteOrder i (fst (deleteOrder i s)))) = storage (fst (deleteOrder i s))"
  proof -
    have "storage (fst (deleteOrder i (fst (deleteOrder i s))))
          = storage (write_orders (filter ?keep (getOrders (fst (deleteOrder i s)))) (fst (deleteOrder i s)))"
      by (simp add: deleteOrder_def [of i "fst (deleteOrder i s)"])
    also have "\<dots> = storage (write_orders (filter ?keep (getOrders s)) (fst (deleteOrder i s)))"
      by (simp add: g)
    also have "\<dots> = storage (write_orders (filter ?keep (getOrders s)) s)"
      by (simp add: deleteOrder_def [of i s] storage_write_orders_broadcast write_orders_twice)
    also have "\<dots> = storage (fst (deleteOrder i s))"
      by (simp add: deleteOrder_def)
    finally show ?thesis .
  qed
  have g2: "getOrders (fst (deleteOrder i (fst (deleteOrder i s)))) = getOrders (fst (deleteOrder i s))"
    by (simp add: g)
  have rest: "hm_pos_menu (storage (fst (deleteOrder i s))) = hm_pos_menu (storage s)
    \<and> hm_pos_customers (storage (fst (deleteOrder i s))) = hm_pos_customers (storage s)
    \<and> new_posts s (fst (deleteOrder i s)) = [\<lparr>type_event = GENERIC_UPDATE, data = None\<rparr>]
    \<and> new_calls s (fst (deleteOrder i s))
       = map (\<lambda>l. (l, \<lparr>type_event = GENERIC_UPDATE, data = None\<rparr>))
           (delivered_to \<lparr>type_event = GENERIC_UPDATE, data = None\<rparr> s)"
    by (simp add: deleteOrder_def)
  from st g [of s] m se twice g2 rest show ?thesis
    by simp
qed


section \<open>Kiosk tracker alerts\<close>

lemma checkStatus_found:
  assumes "find (\<lambda>x. Some (id_order x) = activeOrderId k) (getOrders s) = Some fresh"
    and "activeOrder k = Some prev"
  shows "checkStatus s t1 t2 k =
     (let ka = (if status prev = pending \<and> status fresh = preparing
                then addNotification ''Order Update'' ''Your order is being prepared!'' info
                       t1 t2 (playNotificationSound sound_preparing k)
                else k);
          kb = (if status prev \<noteq> ready \<and> status fresh = ready
                then (addNotification ''Order Ready!''
                        (''Order #'' @ slice_last 4 (toString (id_order fresh))
                           @ '' is ready for pickup.'')
                        success t1 t2 (playNotificationSound sound_ready ka))
                     \<lparr>isTrackingMinimized := False\<rparr>
                else ka)
      in kb\<lparr>activeOrder := Some fresh\<rparr>)"
  using assms by (simp add: checkStatus_def Let_def)

text \<open>
  Claim C4, as the code has it. Let the kiosk hold a previous snapshot of the tracked
  order with status \<open>p\<close> and let the store hold the order with status \<open>f\<close>. Then
  \<open>checkStatus\<close> gives the soft alert (the preparing sound and an info notification)
  exactly when \<open>p\<close> is pending and \<open>f\<close> is preparing, and gives the prominent alert
  (the ready sound and a success notification) and opens the tracking view exactly
  when \<open>f\<close> is ready and \<open>p\<close> is not; otherwise sounds, notifications and the view are
  as before. In every case the fetched order becomes the snapshot.
\<close>

theorem checkStatus_alerts:
  "find (\<lambda>x. Some (id_order x) = activeOrderId k) (getOrders s) = Some fresh \<and>
   activeOrder k = Some prev \<longrightarrow>
     played (checkStatus s t1 t2 k)
       = played k
         @ (if status prev = pending \<and> status fresh = preparing then [sound_preparing] else [])
         @ (if status fresh = ready \<and> status prev \<noteq> ready then [sound_ready] else [])
     \<and> notifications (checkStatus s t1 t2 k)
       = (if status fresh = ready \<and> status prev \<noteq> ready
          then [\<lparr>id_noti = toString t1, title = ''Order Ready!'',
                  message = ''Order #'' @ slice_last 4 (toString (id_order fresh))
                              @ '' is ready for pickup.'',
                  timestamp_noti = t2, read = False, type_noti = success\<rparr>]
          else [])
         @ (if status prev = pending \<and> status fresh = preparing
            then [\<lparr>id_noti = toString t1, title = ''Order Update'',
                    message = ''Your order is being prepared!'',
                    timestamp_noti = t2, read = False, type_noti = info\<rparr>]
            else [])
         @ notifications k
     \<and> isTrackingMinimized (checkStatus s t1 t2 k)
       = (if status fresh = ready \<and> status prev \<noteq> ready then False
          else isTrackingMinimized k)
     \<and> (sound_preparing \<in> set (drop (length (played k)) (played (checkStatus s t1 t2 k)))
          \<longleftrightarrow> status prev = pending \<and> status fresh = preparing)
     \<and> (sound_ready \<in> set (drop (length (played k)) (played (checkStatus s t1 t2 k)))
          \<longleftrightarrow> status fresh = ready \<and> status prev \<noteq> ready)
     \<and> activeOrder (checkStatus s t1 t2 k) = Some fresh
     \<and> activeOrderId (checkStatus s t1 t2 k) = activeOrderId k"
proof
  assume a: "find (\<lambda>x. Some (id_order x) = activeOrderId k) (getOrders s) = Some fresh \<and>
             activeOrder k = Some prev"
  then have f: "find (\<lambda>x. Some (id_order x) = activeOrderId k) (getOrders s) = Some fresh"
    and p: "activeOrder k = Some prev"
    by simp_all
  note c = checkStatus_found [OF f p, of t1 t2]
  show "played (checkStatus s t1 t2 k)
       = played k
         @ (if status prev = pending \<and> status fresh = preparing then [sound_preparing] else [])
         @ (if status fresh = ready \<and> status prev \<noteq> ready then [sound_ready] else [])
     \<and> notifications (checkStatus s t1 t2 k)
       = (if status fresh = ready \<and> status prev \<noteq> ready
          then [\<lparr>id_noti = toString t1, title = ''Order Ready!'',
                  message = ''Order #'' @ slice_last 4 (toString (id_order fresh))
                              @ '' is ready for pickup.'',
                  timestamp_noti = t2, read = False, type_noti = success\<rparr>]
          else [])
         @ (if status prev = pending \<and> status fresh = preparing
            then [\<lparr>id_noti = toString t1, title = ''Order Update'',
                    message = ''Your order is being prepared!'',
                    timestamp_noti = t2, read = False, type_noti = info\<rparr>]
            else [])
         @ notifications k
     \<and> isTrackingMinimized (checkStatus s t1 t2 k)
       = (if status fresh = ready \<and> status prev \<noteq> ready then False
          else isTrackingMinimized k)
     \<and> (sound_preparing \<in> set (drop (length (played k)) (played (checkStatus s t1 t2 k)))
          \<longleftrightarrow> status prev = pending \<and> status fresh = preparing)
     \<and> (sound_ready \<in> set (drop (length (played k)) (played (checkStatus s t1 t2 k)))
          \<longleftrightarrow> status fresh = ready \<and> status prev \<noteq> ready)
     \<and> activeOrder (checkStatus s t1 t2 k) = Some fresh
     \<and> activeOrderId (checkStatus s t1 t2 k) = activeOrderId k"
    by (cases "status prev"; cases "status fresh")
       (simp_all add: c Let_def addNotification_def playNotificationSound_def)
qed

lemma getOrders_store_preparing:
  "getOrders store_preparing = [example_order\<lparr>status := preparing\<rparr>]"
  by (simp add: store_preparing_def getOrders_def write_orders_def parse_or_empty_def)

lemma getOrders_store_ready: "getOrders store_ready = [example_order\<lparr>status := ready\<rparr>]"
  by (simp add: store_ready_def getOrders_def write_orders_def parse_or_empty_def)

text \<open>
  The kiosk saw order 41 as pending; the store has it as ready. The ready sound is
  played, one success notification for order number 41 is added and the tracking view
  is opened.
\<close>

theorem checkStatus_alerts_witness:
  "find (\<lambda>x. Some (id_order x) = activeOrderId kiosk_saw_pending) (getOrders store_ready)
     = Some (example_order\<lparr>status := ready\<rparr>)
   \<and> activeOrder kiosk_saw_pending = Some example_order
   \<and> played (checkStatus store_ready 1700000090000 1700000090001 kiosk_saw_pending)
       = [sound_ready]
   \<and> map message (notifications
        (checkStatus store_ready 1700000090000 1700000090001 kiosk_saw_pending))
       = [''Order #41 is ready for pickup.'']
   \<and> \<not> isTrackingMinimized
        (checkStatus store_ready 1700000090000 1700000090001 kiosk_saw_pending)"
proof -
  have f: "find (\<lambda>x. Some (id_order x) = activeOrderId kiosk_saw_pending) (getOrders store_ready)
     = Some (example_order\<lparr>status := ready\<rparr>)"
    by (simp add: getOrders_store_ready kiosk_saw_pending_def example_order_def)
  have p: "activeOrder kiosk_saw_pending = Some example_order"
    by (simp add: kiosk_saw_pending_def)
  have st: "status example_order = pending" "id_order example_order = 41"
    by (simp_all add: example_order_def)
  have k: "played kiosk_saw_pending = []" "notifications kiosk_saw_pending = []"
    by (simp_all add: kiosk_saw_pending_def)
  have n: "slice_last 4 (toString 41) = ''41''"
    by (simp add: slice_last_def toString_def string_of_nat.simps digit_def)
  from checkStatus_alerts [of kiosk_saw_pending store_ready "example_order\<lparr>status := ready\<rparr>"
         example_order 1700000090000 1700000090001] f p
  show ?thesis
    by (simp add: st k n)
qed

text \<open>
  Against claim C4 as stated: the kiosk saw order 41 as ready and the store has it as
  preparing, so the order enters preparing from a state that is not preparing; no
  sound is played and no notification is added.
\<close>

theorem checkStatus_no_soft_alert_counterexample:
  "activeOrder kiosk_saw_ready = Some (example_order\<lparr>status := ready\<rparr>)
   \<and> find (\<lambda>x. Some (id_order x) = activeOrderId kiosk_saw_ready) (getOrders store_preparing)
       = Some (example_order\<lparr>status := preparing\<rparr>)
   \<and> status (example_order\<lparr>status := preparing\<rparr>) = preparing
   \<and> status (example_order\<lparr>status := ready\<rparr>) \<noteq> preparing
   \<and> played (checkStatus store_preparing 1700000090000 1700000090001 kiosk_saw_ready)
       = played kiosk_saw_ready
   \<and> notifications (checkStatus store_preparing 1700000090000 1700000090001 kiosk_saw_ready)
       = notifications kiosk_saw_ready"
  by (simp add: checkStatus_def Let_def getOrders_store_preparing kiosk_saw_ready_def
      example_order_def)


section \<open>Menu item ids\<close>

lemma ids_addMenuItem:
  "map id_item (getMenu (fst (addMenuItem item now s))) = map id_item (getMenu s) @ [now]"
  by (simp add: addMenuItem_def Let_def)

lemma ids_addMenuItems:
  "map id_item (getMenu (addMenuItems cs s)) = map id_item (getMenu s) @ map snd cs"
  by (induction cs s rule: addMenuItems.induct) (simp_all add: ids_addMenuItem)

lemma count_list_one_if_distinct: "distinct xs \<Longrightarrow> x \<in> set xs \<Longrightarrow> count_list xs x = 1"
  by (induction xs) (auto simp: count_list_0_iff)

text \<open>
  Claim C5, as the code has it. \<open>addMenuItem\<close> assigns the clock reading \<open>Date.now()\<close>
  as the id, and returns it unless a listener throws, and does not look at the ids in
  the menu. For a sequence of
  calls the ids in the menu are the ids from before followed by the clock readings of
  the calls. So when the clock readings of the calls differ from each other and from
  the ids already in the menu, every assigned id occurs exactly once in the menu, and
  a menu whose ids were unique keeps unique ids.
\<close>

theorem addMenuItem_ids_unique_if_clock_fresh:
  "map id_item (getMenu (fst (addMenuItem item now s))) = map id_item (getMenu s) @ [now]
   \<and> snd (addMenuItem item now s)
       = (case find (\<lambda>l. throws s l \<lparr>type_event = MENU_UPDATE, data = None\<rparr>) (listeners s) of
            None \<Rightarrow> Inr now | Some l \<Rightarrow> Inl (ListenerError l))
   \<and> map id_item (getMenu (addMenuItems cs s)) = map id_item (getMenu s) @ map snd cs
   \<and> (distinct (map snd cs) \<and> set (map snd cs) \<inter> set (map id_item (getMenu s)) = {} \<longrightarrow>
        (\<forall>t\<in>set (map snd cs). count_list (map id_item (getMenu (addMenuItems cs s))) t = 1)
        \<and> (distinct (map id_item (getMenu s)) \<longrightarrow>
             distinct (map id_item (getMenu (addMenuItems cs s)))))"
proof (intro conjI impI ballI)
  show "map id_item (getMenu (fst (addMenuItem item now s))) = map id_item (getMenu s) @ [now]"
    by (rule ids_addMenuItem)
  show "snd (addMenuItem item now s)
       = (case find (\<lambda>l. throws s l \<lparr>type_event = MENU_UPDATE, data = None\<rparr>) (listeners s) of
            None \<Rightarrow> Inr now | Some l \<Rightarrow> Inl (ListenerError l))"
    by (simp add: addMenuItem_def Let_def then_return_def snd_broadcastUpdate
        split: option.splits)
  show "map id_item (getMenu (addMenuItems cs s)) = map id_item (getMenu s) @ map snd cs"
    by (rule ids_addMenuItems)
next
  fix t
  assume h: "distinct (map snd cs) \<and> set (map snd cs) \<inter> set (map id_item (getMenu s)) = {}"
    and t: "t \<in> set (map snd cs)"
  from h t have "t \<notin> set (map id_item (getMenu s))"
    by blast
  then have "count_list (map id_item (getMenu s)) t = 0"
    by simp
  moreover from h t have "count_list (map snd cs) t = 1"
    by (simp only: count_list_one_if_distinct)
  ultimately show "count_list (map id_item (getMenu (addMenuItems cs s))) t = 1"
    by (simp add: ids_addMenuItems)
next
  assume h: "distinct (map snd cs) \<and> set (map snd cs) \<inter> set (map id_item (getMenu s)) = {}"
    and d: "distinct (map id_item (getMenu s))"
  from h d show "distinct (map id_item (getMenu (addMenuItems cs s)))"
    by (simp only: ids_addMenuItems distinct_append) blast
qed

text \<open>
  Two items are added at the clock readings 1700000000000 and 1700000000001 to the
  starter menu with the ids 1, 2, 3: the menu then has five different ids.
\<close>

theorem addMenuItem_ids_unique_if_clock_fresh_witness:
  "distinct (map snd [(latte, 1700000000000), (mocha, 1700000000001::int)])
   \<and> set (map snd [(latte, 1700000000000), (mocha, 1700000000001)])
       \<inter> set (map id_item (getMenu (init new_DBService))) = {}
   \<and> distinct (map id_item (getMenu (init new_DBService)))
   \<and> map id_item (getMenu (addMenuItems [(latte, 1700000000000), (mocha, 1700000000001)]
        (init new_DBService))) = [1, 2, 3, 1700000000000, 1700000000001]
   \<and> distinct (map id_item (getMenu
        (addMenuItems [(latte, 1700000000000), (mocha, 1700000000001)] (init new_DBService))))"
proof -
  have m: "map id_item (getMenu (init new_DBService)) = [1, 2, 3]"
    by (simp add: init_def Let_def new_DBService_def getMenu_def parse_or_empty_def
        INITIAL_MENU_def)
  have h: "distinct (map snd [(latte, 1700000000000), (mocha, 1700000000001::int)])
     \<and> set (map snd [(latte, 1700000000000), (mocha, 1700000000001)])
         \<inter> set (map id_item (getMenu (init new_DBService))) = {}"
    by (simp add: m)
  have d: "distinct (map id_item (getMenu (init new_DBService)))"
    by (simp add: m)
  from addMenuItem_ids_unique_if_clock_fresh
         [of latte 0 "init new_DBService" "[(latte, 1700000000000), (mocha, 1700000000001)]"]
       h d
  show ?thesis
    by (simp add: m)
qed

text \<open>
  Against claim C5 as stated: two items added at the same clock reading get the same
  id, so the menu holds two items with one id.
\<close>

theorem addMenuItem_same_clock_counterexample:
  "snd (addMenuItem latte 1700000000000 (init new_DBService)) = Inr 1700000000000
   \<and> snd (addMenuItem mocha 1700000000000
            (fst (addMenuItem latte 1700000000000 (init new_DBService)))) = Inr 1700000000000
   \<and> map (\<lambda>m. (id_item m, name_item m))
        (getMenu (addMenuItems [(latte, 1700000000000), (mocha, 1700000000000)]
           (init new_DBService)))
      = [(1, ''Signature Espresso''), (2, ''Oat Milk Latte''), (3, ''Blueberry Muffin''),
         (1700000000000, ''Latte''), (1700000000000, ''Mocha'')]
   \<and> \<not> distinct (map id_item
          (getMenu (addMenuItems [(latte, 1700000000000), (mocha, 1700000000000)]
             (init new_DBService))))"
  by (simp add: addMenuItem_def Let_def init_def new_DBService_def getMenu_def
      parse_or_empty_def write_menu_def broadcastUpdate_def notifyListeners_def
      then_return_def INITIAL_MENU_def latte_def mocha_def)


section \<open>Customer registration\<close>

subsection \<open>Decimal text determines the number\<close>

lemma digit_inj: "d < 10 \<Longrightarrow> d' < 10 \<Longrightarrow> digit d = digit d' \<Longrightarrow> d = d'"
proof -
  assume a: "d < 10" "d' < 10" "digit d = digit d'"
  have "distinct ''0123456789''"
    by simp
  with a show ?thesis
    by (simp add: digit_def nth_eq_iff_index_eq)
qed

lemma digit_not_minus: "d < 10 \<Longrightarrow> digit d \<noteq> CHR ''-''"
proof -
  assume "d < 10"
  then have "''0123456789'' ! d \<in> set ''0123456789''"
    by (intro nth_mem) simp
  then show ?thesis
    by (auto simp: digit_def)
qed

lemma string_of_nat_not_Nil: "string_of_nat n \<noteq> []"
  by (subst string_of_nat.simps) simp

lemma string_of_nat_inj: "string_of_nat n = string_of_nat m \<Longrightarrow> n = m"
proof (induction n arbitrary: m rule: string_of_nat.induct)
  case (1 n)
  show ?case
  proof (cases "n < 10")
    case n: True
    show ?thesis
    proof (cases "m < 10")
      case True
      with n "1.prems" show ?thesis
        by (simp add: string_of_nat.simps [of n] string_of_nat.simps [of m] digit_inj)
    next
      case False
      with n "1.prems" show ?thesis
        by (simp add: string_of_nat.simps [of n] string_of_nat.simps [of m]
            string_of_nat_not_Nil string_of_nat_not_Nil [THEN not_sym])
    qed
  next
    case n: False
    show ?thesis
    proof (cases "m < 10")
      case True
      with n "1.prems" show ?thesis
        by (simp add: string_of_nat.simps [of n] string_of_nat.simps [of m]
            string_of_nat_not_Nil string_of_nat_not_Nil [THEN not_sym])
    next
      case False
      with n "1.prems" have e: "string_of_nat (n div 10) = string_of_nat (m div 10)"
        and d: "digit (n mod 10) = digit (m mod 10)"
        by (simp_all add: string_of_nat.simps [of n] string_of_nat.simps [of m])
      from "1.IH" [OF n e] have q: "n div 10 = m div 10" .
      from d have r: "n mod 10 = m mod 10"
        by (intro digit_inj) simp_all
      from q r show ?thesis
        by (metis div_mult_mod_eq)
    qed
  qed
qed

lemma hd_string_of_nat_not_minus: "hd (string_of_nat n) \<noteq> CHR ''-''"
proof (induction n rule: string_of_nat.induct)
  case (1 n)
  show ?case
  proof (cases "n < 10")
    case True
    then show ?thesis
      by (simp add: string_of_nat.simps [of n] digit_not_minus)
  next
    case False
    with "1.IH" show ?thesis
      by (simp add: string_of_nat.simps [of n] string_of_nat_not_Nil)
  qed
qed

lemma string_of_nat_neq_minus: "string_of_nat n \<noteq> CHR ''-'' # cs"
proof
  assume "string_of_nat n = CHR ''-'' # cs"
  then have "hd (string_of_nat n) = CHR ''-''"
    by simp
  with hd_string_of_nat_not_minus [of n] show False
    by simp
qed

lemma toString_inj: "toString a = toString b \<Longrightarrow> a = b"
proof -
  assume e: "toString a = toString b"
  show ?thesis
  proof (cases "a < 0"; cases "b < 0")
    assume "a < 0" "b < 0"
    with e have "nat (- a) = nat (- b)"
      by (simp add: toString_def string_of_nat_inj)
    with \<open>a < 0\<close> \<open>b < 0\<close> show ?thesis
      by simp
  next
    assume "a < 0" "\<not> b < 0"
    with e string_of_nat_neq_minus [of "nat b" "string_of_nat (nat (- a))"] show ?thesis
      by (simp add: toString_def)
  next
    assume "\<not> a < 0" "b < 0"
    with e string_of_nat_neq_minus [of "nat a" "string_of_nat (nat (- b))"] show ?thesis
      by (simp add: toString_def)
  next
    assume "\<not> a < 0" "\<not> b < 0"
    with e have "nat a = nat b"
      by (simp add: toString_def string_of_nat_inj)
    with \<open>\<not> a < 0\<close> \<open>\<not> b < 0\<close> show ?thesis
      by simp
  qed
qed

subsection \<open>Registration\<close>

lemma registerCustomer_duplicate:
  assumes "\<exists>c\<in>set (getCustomers s). phone c = phone_data d"
  shows "registerCustomer d now s = (s, Inl DuplicatePhone)"
proof -
  from assms have "find (\<lambda>c. phone c = phone_data d) (getCustomers s) \<noteq> None"
    by (simp add: find_None_iff_set)
  then show ?thesis
    by (auto simp: registerCustomer_def getCustomers_def Let_def)
qed

lemma registerCustomer_new:
  assumes "\<not> (\<exists>c\<in>set (getCustomers s). phone c = phone_data d)"
  shows "registerCustomer d now s =
     (write_customers
        (getCustomers s @
           [\<lparr>id_customer = ''CUST-'' @ toString now, name_customer = name_data d,
             phone = phone_data d, address = address_data d, password = password_data d\<rparr>]) s,
      Inr \<lparr>id_customer = ''CUST-'' @ toString now, name_customer = name_data d,
           phone = phone_data d, address = address_data d, password = password_data d\<rparr>)"
proof -
  from assms have "find (\<lambda>c. phone c = phone_data d) (getCustomers s) = None"
    by (simp add: find_None_iff_set)
  then show ?thesis
    by (simp add: registerCustomer_def getCustomers_def Let_def)
qed

lemma write_customers_other [simp]:
  "getCustomers (write_customers cs s) = cs"
  "listeners (write_customers cs s) = listeners s"
  "throws (write_customers cs s) = throws s"
  "channel (write_customers cs s) = channel s"
  "calls (write_customers cs s) = calls s"
  "hm_pos_menu (storage (write_customers cs s)) = hm_pos_menu (storage s)"
  "hm_pos_orders (storage (write_customers cs s)) = hm_pos_orders (storage s)"
  by (simp_all add: write_customers_def getCustomers_def parse_or_empty_def)

text \<open>
  Claim C7, as the code has it. \<open>registerCustomer\<close> fails with \<open>DuplicatePhone\<close> exactly
  when a stored customer has the phone number of the data, and then the state is
  unchanged. Otherwise it appends the customer built from the data, with the id
  \<open>CUST-\<close> followed by the clock reading, returns that customer, and publishes nothing:
  no event is posted and no listener is called. The id is not compared with the stored
  ids; it differs from every stored id that was made from another clock reading, so
  it is new whenever no stored customer was registered at the same clock reading.
\<close>

theorem registerCustomer_duplicate_phone_or_fresh:
  "(snd (registerCustomer d now s) = Inl DuplicatePhone
      \<longleftrightarrow> (\<exists>c\<in>set (getCustomers s). phone c = phone_data d))
   \<and> ((\<exists>c\<in>set (getCustomers s). phone c = phone_data d) \<longrightarrow>
        fst (registerCustomer d now s) = s)
   \<and> (\<not> (\<exists>c\<in>set (getCustomers s). phone c = phone_data d) \<longrightarrow>
        (\<exists>c. snd (registerCustomer d now s) = Inr c
           \<and> id_customer c = ''CUST-'' @ toString now
           \<and> name_customer c = name_data d \<and> phone c = phone_data d
           \<and> address c = address_data d \<and> password c = password_data d
           \<and> getCustomers (fst (registerCustomer d now s)) = getCustomers s @ [c]
           \<and> (\<forall>c'\<in>set (getCustomers s).
                 (\<exists>t. t \<noteq> now \<and> id_customer c' = ''CUST-'' @ toString t)
                   \<longrightarrow> id_customer c' \<noteq> id_customer c))
        \<and> new_posts s (fst (registerCustomer d now s)) = []
        \<and> new_calls s (fst (registerCustomer d now s)) = []
        \<and> listeners (fst (registerCustomer d now s)) = listeners s
        \<and> hm_pos_menu (storage (fst (registerCustomer d now s))) = hm_pos_menu (storage s)
        \<and> hm_pos_orders (storage (fst (registerCustomer d now s))) = hm_pos_orders (storage s))"
proof (cases "\<exists>c\<in>set (getCustomers s). phone c = phone_data d")
  case True
  then show ?thesis
    by (simp add: registerCustomer_duplicate)
next
  case False
  let ?c = "\<lparr>id_customer = ''CUST-'' @ toString now, name_customer = name_data d,
             phone = phone_data d, address = address_data d, password = password_data d\<rparr>"
  note r = registerCustomer_new [OF False, of now]
  have fresh: "\<forall>c'\<in>set (getCustomers s).
                 (\<exists>t. t \<noteq> now \<and> id_customer c' = ''CUST-'' @ toString t)
                   \<longrightarrow> id_customer c' \<noteq> id_customer ?c"
    by (auto dest: toString_inj)
  have "\<exists>c. snd (registerCustomer d now s) = Inr c
           \<and> id_customer c = ''CUST-'' @ toString now
           \<and> name_customer c = name_data d \<and> phone c = phone_data d
           \<and> address c = address_data d \<and> password c = password_data d
           \<and> getCustomers (fst (registerCustomer d now s)) = getCustomers s @ [c]
           \<and> (\<forall>c'\<in>set (getCustomers s).
                 (\<exists>t. t \<noteq> now \<and> id_customer c' = ''CUST-'' @ toString t)
                   \<longrightarrow> id_customer c' \<noteq> id_customer c)"
    using fresh by (intro exI [of _ ?c]) (simp add: r)
  moreover have "new_posts s (fst (registerCustomer d now s)) = []
        \<and> new_calls s (fst (registerCustomer d now s)) = []
        \<and> listeners (fst (registerCustomer d now s)) = listeners s
        \<and> hm_pos_menu (storage (fst (registerCustomer d now s))) = hm_pos_menu (storage s)
        \<and> hm_pos_orders (storage (fst (registerCustomer d now s))) = hm_pos_orders (storage s)"
    by (simp add: r new_posts_def new_calls_def)
  moreover have "snd (registerCustomer d now s) \<noteq> Inl DuplicatePhone"
    by (simp add: r)
  ultimately show ?thesis
    using False by blast
qed

text \<open>
  Scenario A of the specification: Mo registers and gets an id with the prefix
  \<open>CUST-\<close>; the same phone number again fails with \<open>DuplicatePhone\<close> and changes nothing.
\<close>

theorem registerCustomer_duplicate_phone_or_fresh_witness:
  "\<not> (\<exists>c\<in>set (getCustomers (init new_DBService)). phone c = phone_data mo)
   \<and> map id_customer (getCustomers (fst (registerCustomer mo 1700000000000 (init new_DBService))))
       = [''CUST-1700000000000'']
   \<and> (\<exists>c\<in>set (getCustomers (fst (registerCustomer mo 1700000000000 (init new_DBService)))).
         phone c = phone_data mo)
   \<and> registerCustomer mo 1700000000555
        (fst (registerCustomer mo 1700000000000 (init new_DBService)))
       = (fst (registerCustomer mo 1700000000000 (init new_DBService)), Inl DuplicatePhone)"
proof -
  let ?s0 = "init new_DBService"
  let ?s1 = "fst (registerCustomer mo 1700000000000 ?s0)"
  have e: "getCustomers ?s0 = []"
    by (simp add: init_def Let_def new_DBService_def getCustomers_def parse_or_empty_def)
  have h0: "\<not> (\<exists>c\<in>set (getCustomers ?s0). phone c = phone_data mo)"
    by (simp add: e)
  from registerCustomer_duplicate_phone_or_fresh [of mo 1700000000000 ?s0] h0
  obtain c where c: "id_customer c = ''CUST-'' @ toString 1700000000000"
      "phone c = phone_data mo" "getCustomers ?s1 = getCustomers ?s0 @ [c]"
    by blast
  have t: "toString 1700000000000 = ''1700000000000''"
    by (simp add: toString_def string_of_nat.simps digit_def)
  from c have ids: "map id_customer (getCustomers ?s1) = [''CUST-1700000000000'']"
    by (simp add: e t)
  from c have h1: "\<exists>c\<in>set (getCustomers ?s1). phone c = phone_data mo"
    by (simp add: e)
  from registerCustomer_duplicate_phone_or_fresh [of mo 1700000000555 ?s1] h1
  have "snd (registerCustomer mo 1700000000555 ?s1) = Inl DuplicatePhone"
    and "fst (registerCustomer mo 1700000000555 ?s1) = ?s1"
    by blast+
  then have "registerCustomer mo 1700000000555 ?s1 = (?s1, Inl DuplicatePhone)"
    by (simp add: prod_eq_iff)
  with h0 ids h1 show ?thesis
    by simp
qed

text \<open>
  Against claim C7 as stated: Mo and Aye, with different phone numbers, register at
  the same clock reading; both calls succeed and both customers get the same id.
\<close>

theorem registerCustomer_same_clock_counterexample:
  "phone_data mo \<noteq> phone_data aye
   \<and> snd (registerCustomer mo 1700000000000 (init new_DBService))
       = Inr \<lparr>id_customer = ''CUST-1700000000000'', name_customer = ''Mo'', phone = ''09123'',
              address = ''Yangon'', password = Some ''x''\<rparr>
   \<and> snd (registerCustomer aye 1700000000000
            (fst (registerCustomer mo 1700000000000 (init new_DBService))))
       = Inr \<lparr>id_customer = ''CUST-1700000000000'', name_customer = ''Aye'', phone = ''09456'',
              address = ''Mandalay'', password = Some ''y''\<rparr>
   \<and> map id_customer (getCustomers (fst (registerCustomer aye 1700000000000
            (fst (registerCustomer mo 1700000000000 (init new_DBService))))))
       = [''CUST-1700000000000'', ''CUST-1700000000000'']"
  by (simp add: registerCustomer_def Let_def init_def new_DBService_def getCustomers_def
      parse_or_empty_def write_customers_def mo_def aye_def toString_def
      string_of_nat.simps digit_def)


section \<open>Orders of a day\<close>


lemma setHours_start: "setHours tz (Date t) 0 0 0 0 = TimeClip (startOfDay tz t)"
  by (simp add: setHours_def Let_def LocalTime_def Day_def MakeDate_def MakeTime_def UTC_def
      msPerDay_def startOfDay_def localDay_def fromLocal_def)

lemma setHours_end: "setHours tz (Date t) 23 59 59 999 = TimeClip (endOfDay tz t)"
  by (simp add: setHours_def Let_def LocalTime_def Day_def MakeDate_def MakeTime_def UTC_def
      msPerDay_def endOfDay_def localDay_def fromLocal_def)

lemma setHours_invalid: "setHours tz Invalid_Date h m sec ms = Invalid_Date"
  by (simp add: setHours_def)

lemma getTime_TimeClip: "getTime (TimeClip v) = (if in_range v then Some v else None)"
  by (simp add: getTime_def TimeClip_def in_range_def)

lemma getOrdersByDate_in_range:
  assumes "in_range (startOfDay tz t)" and "in_range (endOfDay tz t)"
  shows "getOrdersByDate tz (Date t) s
   = filter (\<lambda>x. startOfDay tz t \<le> timestamp x \<and> timestamp x \<le> endOfDay tz t) (getOrders s)"
  using assms
  by (simp add: getOrdersByDate_def Let_def setHours_start setHours_end getTime_TimeClip
      num_ge_def num_le_def)


lemma getOrdersByDate_invalid: "getOrdersByDate tz Invalid_Date s = []"
  by (simp add: getOrdersByDate_def Let_def setHours_invalid getTime_def num_ge_def)







section \<open>Clearing the orders of a day\<close>

lemma clearOrdersByDate_in_range:
  assumes "in_range (startOfDay tz t)" and "in_range (endOfDay tz t)"
  shows "stored_orders (fst (clearOrdersByDate tz (Date t) s))
     = filter (\<lambda>x. \<not> (startOfDay tz t \<le> timestamp x \<and> timestamp x \<le> endOfDay tz t))
         (getOrders s)
   \<and> (snd (clearOrdersByDate tz (Date t) s) = Inr (int (length (getOrdersByDate tz (Date t) s)))
       \<or> (\<exists>l. snd (clearOrdersByDate tz (Date t) s) = Inl (ListenerError l)))"
proof -
  let ?in = "\<lambda>x. startOfDay tz t \<le> timestamp x \<and> timestamp x \<le> endOfDay tz t"
  let ?b = "broadcastUpdate \<lparr>type_event = GENERIC_UPDATE, data = None\<rparr>
              (write_orders (filter (\<lambda>x. \<not> ?in x) (getOrders s)) s)"
  have k: "(\<lambda>x. num_lt (timestamp x) (getTime (setHours tz (Date t) 0 0 0 0))
               \<or> num_gt (timestamp x) (getTime (setHours tz (Date t) 23 59 59 999)))
           = (\<lambda>x. \<not> ?in x)"
    using assms
    by (auto simp: setHours_start setHours_end getTime_TimeClip num_lt_def num_gt_def)
  have "length (filter ?in (getOrders s)) + length (filter (\<lambda>x. \<not> ?in x) (getOrders s))
        = length (getOrders s)"
    by (rule sum_length_filter_compl)
  then have c: "int (length (getOrders s)) - int (length (filter (\<lambda>x. \<not> ?in x) (getOrders s)))
        = int (length (filter ?in (getOrders s)))"
    by linarith
  have cl: "clearOrdersByDate tz (Date t) s
     = then_return ?b
         (int (length (getOrders s)) - int (length (filter (\<lambda>x. \<not> ?in x) (getOrders s))))"
    by (simp only: clearOrdersByDate_def Let_def k)
  have a: "stored_orders (fst (clearOrdersByDate tz (Date t) s))
     = filter (\<lambda>x. \<not> ?in x) (getOrders s)"
    by (simp only: cl fst_then_return stored_orders_broadcastUpdate stored_orders_write_orders)
  have g: "getOrdersByDate tz (Date t) s = filter ?in (getOrders s)"
    using assms by (rule getOrdersByDate_in_range)
  have b: "snd (clearOrdersByDate tz (Date t) s)
             = Inr (int (length (getOrdersByDate tz (Date t) s)))
           \<or> (\<exists>l. snd (clearOrdersByDate tz (Date t) s) = Inl (ListenerError l))"
  proof (cases "snd ?b")
    case (Inl err)
    then have "snd ?b = Inl (ListenerError (case err of ListenerError l \<Rightarrow> l | _ \<Rightarrow> 0))"
      by (auto simp: snd_broadcastUpdate split: option.splits)
    then show ?thesis
      by (simp only: cl then_return_def snd_conv sum.case) blast
  next
    case (Inr u)
    then show ?thesis
      by (simp only: cl then_return_def snd_conv sum.case c g) simp
  qed
  from a b show ?thesis
    by (rule conjI)
qed

lemma clearOrdersByDate_invalid:
  "stored_orders (fst (clearOrdersByDate tz Invalid_Date s)) = []"
  by (simp add: clearOrdersByDate_def Let_def setHours_invalid getTime_def num_lt_def
      num_gt_def)

text \<open>
  Claim C9 fails on the code for an invalid date, the date that the reports page
  builds from an emptied date field. \<open>getOrdersByDate\<close> returns no order for it, so
  by the claim \<open>clearOrdersByDate\<close> should remove nothing and return 0. Both
  comparisons of the keep condition are false against \<open>NaN\<close>, so no order is kept:
  the two orders of the example store are removed and the returned count is 2.
\<close>

theorem clearOrdersByDate_invalid_date_removes_all:
  "stored_orders example_store = [example_order, example_order2]
   \<and> getOrdersByDate mmt Invalid_Date example_store = []
   \<and> stored_orders (fst (clearOrdersByDate mmt Invalid_Date example_store)) = []
   \<and> snd (clearOrdersByDate mmt Invalid_Date example_store) = Inr 2"
proof -
  have so: "stored_orders example_store = [example_order, example_order2]"
    by (simp add: example_store_def subscribe_def stored_orders_def write_orders_def
        parse_or_empty_def)
  have ls: "listeners example_store = [1]"
    by (simp add: example_store_def subscribe_def init_def Let_def new_DBService_def)
  have th: "throws example_store = (\<lambda>l event. False)"
    by (simp add: example_store_def subscribe_def init_def Let_def new_DBService_def
        write_orders_def)
  have "snd (clearOrdersByDate mmt Invalid_Date example_store) = Inr 2"
    by (simp add: clearOrdersByDate_def Let_def setHours_invalid getTime_def num_lt_def
        num_gt_def length_getOrders so then_return_def snd_broadcastUpdate ls th)
  with so show ?thesis
    by (simp add: getOrdersByDate_invalid clearOrdersByDate_invalid)
qed


end
